theory Spec2Isabelle
  imports Complex_Main
begin

section \<open>Time\<close>

text \<open>
  A \<open>time.Time\<close> is modelled as the number of nanoseconds since Go's zero Time (the value
  of an unset \<open>time.Time\<close> field), a \<open>time.Duration\<close> as a number of nanoseconds.
  \<open>Time.Sub\<close> saturates at the largest and smallest int64 duration, as Go's does;
  \<open>time.Since(t)\<close> is \<open>time.Now().Sub(t)\<close>.
\<close>

type_synonym Time = int
type_synonym Duration = int

definition maxDuration :: Duration where
  "maxDuration = 2 ^ 63 - 1"

definition minDuration :: Duration where
  "minDuration = - (2 ^ 63)"

definition Second :: Duration where
  "Second = 1000000000"

definition Minute :: Duration where
  "Minute = 60 * Second"

definition Hour :: Duration where
  "Hour = 60 * Minute"

definition time_Sub :: "Time \<Rightarrow> Time \<Rightarrow> Duration" where
  "time_Sub t u =
     (let d = t - u in
      if d > maxDuration then maxDuration
      else if d < minDuration then minDuration
      else d)"

section \<open>Effects\<close>

text \<open>
  Everything a call does to the outside is recorded as an event, in order: a request sent
  through the portal transport (method, endpoint and form fields), the two requests of
  the challenge-solving client, a sleep, and the operations on the session cache's
  reader/writer lock.
\<close>

datatype event =
    EvRequest string string "(string \<times> string) list option"
  | EvCreateTask string string string
  | EvGetTaskResult string
  | EvSleep Duration
  | EvNewTimer Duration
  | EvNewTicker Duration
  | EvRLock
  | EvRUnlock
  | EvLock
  | EvUnlock

text \<open>Go errors are represented by their message, the text \<open>Error()\<close> returns.\<close>

type_synonym error = string

text \<open>A number in decimal, as the verb \<open>%d\<close> prints it.\<close>

definition digitChar :: "nat \<Rightarrow> char" where
  "digitChar d = char_of (of_char CHR ''0'' + d)"

function decimal :: "nat \<Rightarrow> string" where
  "decimal n = (if n < 10 then [digitChar n] else decimal (n div 10) @ [digitChar (n mod 10)])"
  by pat_completeness auto
termination
  by (relation "measure (\<lambda>n. n)") auto

declare decimal.simps [simp del]

section \<open>The challenge-solving client (package capsolver)\<close>

definition TaskTypeTurnstileProxyLess :: string where
  "TaskTypeTurnstileProxyLess = ''AntiTurnstileTaskProxyLess''"

definition TaskTypeRecaptchaV2ProxyLess :: string where
  "TaskTypeRecaptchaV2ProxyLess = ''ReCaptchaV2TaskProxyLess''"

definition TaskTypeRecaptchaV2 :: string where
  "TaskTypeRecaptchaV2 = ''ReCaptchaV2Task''"

record ProxyInfo =
  ProxyType :: string
  ProxyAddress :: string
  ProxyLogin :: string
  ProxyPassword :: string

record CapsolverClient =
  apiKey :: string
  proxy :: "ProxyInfo option"

definition capsolver_NewClient :: "string \<Rightarrow> CapsolverClient" where
  "capsolver_NewClient key = \<lparr>apiKey = key, proxy = None\<rparr>"

text \<open>
  What the solving service answers. A \<open>createTask\<close> call ends in a transport error, an
  unreadable body, a body that is not the expected JSON, or a decoded
  \<open>CreateTaskResponse\<close> (ErrorID, ErrorCode, ErrorDescription, TaskID). A
  \<open>getTaskResult\<close> call likewise, its decoded response being (ErrorID, ErrorCode,
  ErrorDescription, Status, Solution.Token).
\<close>

datatype create_reply =
    CreatePostError error
  | CreateReadError error
  | CreateUnmarshalError error
  | CreateTaskResponse int string string string

datatype poll_reply =
    PollPostError error
  | PollReadError error
  | PollUnmarshalError error
  | GetTaskResultResponse int string string string string

text \<open>
  One create+poll attempt as the environment plays it: the answer to \<open>createTask\<close>, and
  the answers to the polls that the select loop of \<open>waitForTaskResult\<close> makes, one per
  tick of the 2-second ticker that it receives before it receives from the 120-second
  timer. The timer fires once, so the list is finite; when it is used up, the next
  select takes the timer's branch.
\<close>

record attempt =
  createReply :: create_reply
  pollReplies :: "poll_reply list"

text \<open>\<open>createTask\<close> (the request cannot fail to marshal: it holds strings only).\<close>

definition createTask :: "create_reply \<Rightarrow> error + string" where
  "createTask r =
     (case r of
        CreatePostError e \<Rightarrow> Inl (''failed to send request: '' @ e)
      | CreateReadError e \<Rightarrow> Inl (''failed to read response: '' @ e)
      | CreateUnmarshalError e \<Rightarrow> Inl (''failed to unmarshal response: '' @ e)
      | CreateTaskResponse errorID errorCode errorDescription taskID \<Rightarrow>
          if errorID \<noteq> 0 then
            Inl (''capsolver error '' @ errorCode @ '': '' @ errorDescription)
          else if taskID = [] then Inl ''no task ID returned''
          else Inr taskID)"

text \<open>
  The select loop of \<open>waitForTaskResult\<close>, over the polls that precede the timer. The
  result comes with the number of polls made.
\<close>

fun waitForTaskResult_loop :: "poll_reply list \<Rightarrow> nat \<Rightarrow> (error + string) \<times> nat" where
  "waitForTaskResult_loop [] n = (Inl ''timeout waiting for captcha solution'', n)"
| "waitForTaskResult_loop (r # rs) n =
     (case r of
        PollPostError e \<Rightarrow> waitForTaskResult_loop rs (Suc n)
      | PollReadError e \<Rightarrow> waitForTaskResult_loop rs (Suc n)
      | PollUnmarshalError e \<Rightarrow> waitForTaskResult_loop rs (Suc n)
      | GetTaskResultResponse errorID errorCode errorDescription status token \<Rightarrow>
          if errorID \<noteq> 0 then
            (Inl (''capsolver error '' @ errorCode @ '': '' @ errorDescription), Suc n)
          else if status = ''ready'' then
            (if token = [] then (Inl ''no token in solution'', Suc n)
             else (Inr token, Suc n))
          else waitForTaskResult_loop rs (Suc n))"

definition waitForTaskResult :: "poll_reply list \<Rightarrow> string \<Rightarrow> (error + string) \<times> event list" where
  "waitForTaskResult polls taskID =
     (case waitForTaskResult_loop polls 0 of
        (res, n) \<Rightarrow>
          (res, [EvNewTimer (120 * Second), EvNewTicker (2 * Second)]
                @ replicate n (EvGetTaskResult taskID)))"

text \<open>
  \<open>SolveTurnstile\<close>: the loop \<open>for i := 0; i < 3; i++\<close>, with \<open>lastErr\<close> (\<open>None\<close> is
  nil) and the events so far. The environment gives the attempt played at each index.
\<close>

function SolveTurnstile_loop ::
  "(nat \<Rightarrow> attempt) \<Rightarrow> string \<Rightarrow> string \<Rightarrow> nat \<Rightarrow> error option \<Rightarrow> event list
    \<Rightarrow> (error option \<times> string) \<times> event list" where
  "SolveTurnstile_loop env websiteURL websiteKey i lastErr evs =
     (if i < 3 then
        (let evs1 = (if i > 0 then evs @ [EvSleep (Second * 2)] else evs);
             evs2 = evs1 @ [EvCreateTask TaskTypeTurnstileProxyLess websiteURL websiteKey]
         in case createTask (createReply (env i)) of
              Inl err \<Rightarrow>
                SolveTurnstile_loop env websiteURL websiteKey (i + 1)
                  (Some (''failed to create turnstile task: '' @ err)) evs2
            | Inr taskID \<Rightarrow>
                (case waitForTaskResult (pollReplies (env i)) taskID of
                   (Inl err, evs3) \<Rightarrow>
                     SolveTurnstile_loop env websiteURL websiteKey (i + 1)
                       (Some (''failed to get turnstile solution: '' @ err)) (evs2 @ evs3)
                 | (Inr token, evs3) \<Rightarrow> ((None, token), evs2 @ evs3)))
      else ((lastErr, []), evs))"
  by pat_completeness auto
termination
  by (relation "measure (\<lambda>(env, u, k, i, lastErr, evs). 3 - i)") auto

declare SolveTurnstile_loop.simps [simp del]

definition SolveTurnstile ::
  "(nat \<Rightarrow> attempt) \<Rightarrow> string \<Rightarrow> string \<Rightarrow> (error option \<times> string) \<times> event list" where
  "SolveTurnstile env websiteURL websiteKey =
     SolveTurnstile_loop env websiteURL websiteKey 0 None []"

text \<open>\<open>SolveRecaptchaV2\<close>: the same loop; the task type follows the client's proxy.\<close>

function SolveRecaptchaV2_loop ::
  "CapsolverClient \<Rightarrow> (nat \<Rightarrow> attempt) \<Rightarrow> string \<Rightarrow> string \<Rightarrow> nat \<Rightarrow> error option
    \<Rightarrow> event list \<Rightarrow> (error option \<times> string) \<times> event list" where
  "SolveRecaptchaV2_loop c env websiteURL websiteKey i lastErr evs =
     (if i < 3 then
        (let evs1 = (if i > 0 then evs @ [EvSleep (Second * 2)] else evs);
             taskType = (if proxy c \<noteq> None then TaskTypeRecaptchaV2
                         else TaskTypeRecaptchaV2ProxyLess);
             evs2 = evs1 @ [EvCreateTask taskType websiteURL websiteKey]
         in case createTask (createReply (env i)) of
              Inl err \<Rightarrow>
                SolveRecaptchaV2_loop c env websiteURL websiteKey (i + 1)
                  (Some (''failed to create recaptcha task: '' @ err)) evs2
            | Inr taskID \<Rightarrow>
                (case waitForTaskResult (pollReplies (env i)) taskID of
                   (Inl err, evs3) \<Rightarrow>
                     SolveRecaptchaV2_loop c env websiteURL websiteKey (i + 1)
                       (Some (''failed to get recaptcha solution: '' @ err)) (evs2 @ evs3)
                 | (Inr token, evs3) \<Rightarrow> ((None, token), evs2 @ evs3)))
      else ((lastErr, []), evs))"
  by pat_completeness auto
termination
  by (relation "measure (\<lambda>(c, env, u, k, i, lastErr, evs). 3 - i)") auto

declare SolveRecaptchaV2_loop.simps [simp del]

definition SolveRecaptchaV2 ::
  "CapsolverClient \<Rightarrow> (nat \<Rightarrow> attempt) \<Rightarrow> string \<Rightarrow> string
    \<Rightarrow> (error option \<times> string) \<times> event list" where
  "SolveRecaptchaV2 c env websiteURL websiteKey =
     SolveRecaptchaV2_loop c env websiteURL websiteKey 0 None []"

section \<open>The portal client: data\<close>


definition ErrFailedToVisitPage :: error where
  "ErrFailedToVisitPage = ''failed to visit page''"


definition ErrFailedToReadResponse :: error where
  "ErrFailedToReadResponse = ''failed to read response body''"

definition ErrFailedLogin :: error where
  "ErrFailedLogin = ''failed to login''"

definition ErrInvalidCredentials :: error where
  "ErrInvalidCredentials = ErrFailedLogin @ '': invalid credentials''"

definition ErrInternalFailure :: error where
  "ErrInternalFailure = ''internal failure''"

definition ErrFailedToComposeRequest :: error where
  "ErrFailedToComposeRequest = ErrInternalFailure @ '': failed to compose request''"

definition ErrFailedToParsePage :: error where
  "ErrFailedToParsePage = ErrInternalFailure @ '': failed to parse page''"

definition ErrNon200StatusCode :: error where
  "ErrNon200StatusCode = ''received non-200 status code from amizone - is it down?''"

definition ErrLoginThrottled :: error where
  "ErrLoginThrottled = ''login throttled''"

definition loginRequestEndpoint :: string where
  "loginRequestEndpoint = ''/''"






definition verificationTokenName :: string where
  "verificationTokenName = ''__RequestVerificationToken''"

definition MethodGet :: string where
  "MethodGet = ''GET''"

definition MethodPost :: string where
  "MethodPost = ''POST''"

record Credentials =
  Username :: string
  Password :: string

definition emptyCredentials :: Credentials where
  "emptyCredentials = \<lparr>Username = [], Password = []\<rparr>"

text \<open>
  A \<open>url.Values\<close> built with \<open>Set\<close> only holds one value per key; it is an association
  list in insertion order (\<open>Encode\<close> sorts by key and escapes; neither is modelled, the
  request carries the fields themselves).
\<close>

type_synonym Values = "(string \<times> string) list"

fun Values_Set :: "string \<Rightarrow> string \<Rightarrow> Values \<Rightarrow> Values" where
  "Values_Set k v [] = [(k, v)]"
| "Values_Set k v ((k', v') # kvs) =
     (if k' = k then (k, v) # kvs else (k', v') # Values_Set k v kvs)"

fun Values_Get :: "Values \<Rightarrow> string \<Rightarrow> string option" where
  "Values_Get [] k = None"
| "Values_Get ((k', v') # kvs) k = (if k' = k then Some v' else Values_Get kvs k)"

section \<open>The login form (package parse, login\_form.go)\<close>

record LoginFormFields =
  VerificationToken :: string
  Salt :: string
  SecretNumber :: string
  Signature :: string
  Challenge :: string
  TurnstileSiteKey :: string
  RecaptchaSiteKey :: string
  TurnstileResponse :: string
  RecaptchaToken :: string
  Honeypot :: string

text \<open>
  A fetched document, as far as the code looks at it: whether goquery can read it at all,
  the \<open>value\<close> attribute of the first input of a given name inside \<open>form#loginform\<close>
  (\<open>None\<close> when there is no such input or it has no value), the texts of the script
  elements in document order, and the outcome of \<open>parse.IsLoggedIn\<close> on the document
  (that function is not among the sources; its verdict is part of the document here).
\<close>

record page =
  readable :: bool
  loginformInput :: "string \<Rightarrow> string option"
  scriptTexts :: "string list"
  IsLoggedIn :: bool

definition AttrOr :: "string option \<Rightarrow> string \<Rightarrow> string" where
  "AttrOr a d = (case a of None \<Rightarrow> d | Some v \<Rightarrow> v)"

text \<open>\<open>findSubstring\<close>: the first index at which \<open>substr\<close> occurs in \<open>s\<close>, or -1.\<close>

fun findSubstring_from :: "nat \<Rightarrow> string \<Rightarrow> string \<Rightarrow> int" where
  "findSubstring_from i [] substr = (if substr = [] then int i else - 1)"
| "findSubstring_from i (c # cs) substr =
     (if length substr \<le> length (c # cs) \<and> take (length substr) (c # cs) = substr
      then int i
      else findSubstring_from (Suc i) cs substr)"

definition findSubstring :: "string \<Rightarrow> string \<Rightarrow> int" where
  "findSubstring s substr = findSubstring_from 0 s substr"

definition sitekeyMarker :: string where
  "sitekeyMarker = ''sitekey: '' @ [CHR 0x22]"

text \<open>The body of the \<open>Each\<close> over the script elements, on the site key found so far.\<close>

definition scanScript :: "string \<Rightarrow> string \<Rightarrow> string" where
  "scanScript siteKey text =
     (if siteKey = [] \<and> length text > 0 then
        (let idx = findSubstring text sitekeyMarker in
         if idx \<ge> 0 then
           (let start = nat idx + length sitekeyMarker;
                end = findSubstring (drop start text) [CHR 0x22]
            in if end > 0 then take (nat end) (drop start text) else siteKey)
         else siteKey)
      else siteKey)"

definition ParseLoginFormFromDom :: "page \<Rightarrow> LoginFormFields" where
  "ParseLoginFormFromDom doc =
     \<lparr>VerificationToken = AttrOr (loginformInput doc ''__RequestVerificationToken'') [],
      Salt = AttrOr (loginformInput doc ''Salt'') [],
      SecretNumber = AttrOr (loginformInput doc ''SecretNumber'') [],
      Signature = AttrOr (loginformInput doc ''Signature'') [],
      Challenge = AttrOr (loginformInput doc ''Challenge'') [],
      TurnstileSiteKey = foldl scanScript [] (scriptTexts doc),
      RecaptchaSiteKey = [],
      TurnstileResponse = AttrOr (loginformInput doc ''cf-turnstile-response'') [],
      RecaptchaToken = AttrOr (loginformInput doc ''RecaptchaToken'') [],
      Honeypot = AttrOr (loginformInput doc ''honeypot'') []\<rparr>"

definition ParseLoginForm :: "page \<Rightarrow> error + LoginFormFields" where
  "ParseLoginForm body =
     (if \<not> readable body then Inl ''failed to parse login page''
      else Inr (ParseLoginFormFromDom body))"


section \<open>The portal client: requests and login (package amizone)\<close>

text \<open>
  What the transport answers to a request: \<open>Do\<close> fails, or it returns a response with a
  status code, the path of the URL the request ended at after redirects, and a body that
  can or cannot be read to its end.
\<close>

record response =
  StatusCode :: nat
  URLPath :: string
  bodyReads :: bool
  Body :: page

datatype http_reply = DoError error | DoResponse response

text \<open>
  The environment of one client. \<open>clock\<close> gives the value of the k-th reading of
  \<open>time.Now\<close>; \<open>transport\<close> gives the answer to the k-th request sent through the client's
  http client, and whether the client's cookie jar presents the portal's session cookies
  once that exchange is over (\<open>internal.IsLoggedIn\<close> on the http client, a function that
  is not among the sources: its verdict is the field \<open>jarLoggedIn\<close>); \<open>solves\<close> gives
  the attempts played to the k-th call of the challenge solver. \<open>composes\<close> tells
  whether \<open>http.NewRequest\<close> accepts a method and URL; \<open>AmizoneDomain\<close> is the constant
  of package internal; \<open>cookiejarErr\<close> tells whether \<open>cookiejar.New\<close> fails,
  \<open>tlsClientErr\<close> the error of \<open>tlsclient.NewHTTPClient\<close> if it fails, and
  \<open>envCapsolverKey\<close> is the environment variable \<open>CAPSOLVER_API_KEY\<close>. \<open>events\<close> is
  the log of what was done so far. The log lines of klog and the telemetry of package
  instrumentation are left out, and so is a clock reading made only for a log line.
\<close>

record world =
  clock :: "nat \<Rightarrow> Time"
  clockReads :: nat
  transport :: "nat \<Rightarrow> http_reply \<times> bool"
  requestsSent :: nat
  jarLoggedIn :: bool
  solves :: "nat \<Rightarrow> nat \<Rightarrow> attempt"
  solveCalls :: nat
  composes :: "string \<Rightarrow> string \<Rightarrow> bool"
  AmizoneDomain :: string
  cookiejarErr :: bool
  tlsClientErr :: "error option"
  envCapsolverKey :: string
  events :: "event list"

definition BaseURL :: "world \<Rightarrow> string" where
  "BaseURL w = ''https://'' @ AmizoneDomain w"

definition time_Now :: "world \<Rightarrow> Time \<times> world" where
  "time_Now w = (clock w (clockReads w), w\<lparr>clockReads := Suc (clockReads w)\<rparr>)"

definition httpClient_Do ::
  "string \<Rightarrow> string \<Rightarrow> Values option \<Rightarrow> world \<Rightarrow> http_reply \<times> world" where
  "httpClient_Do method endpoint body w =
     (case transport w (requestsSent w) of
        (reply, jar) \<Rightarrow>
          (reply,
           w\<lparr>requestsSent := Suc (requestsSent w),
             jarLoggedIn := jar,
             events := events w @ [EvRequest method endpoint body]\<rparr>))"

record Client =
  credentials :: Credentials
  capsolverClient :: "CapsolverClient option"
  lastAttempt :: Time
  lastLoginSuccess :: Time
  didLogin :: bool

text \<open>
  \<open>doRequest\<close> from the composition of the request to the return of the response
  (requests.go, lines 49 to 92), the part every call goes through once it is past the
  checks on the credentials and the login state.
\<close>

definition sendRequest ::
  "string \<Rightarrow> string \<Rightarrow> Values option \<Rightarrow> world \<Rightarrow> (error + response) \<times> world" where
  "sendRequest method endpoint body w =
     (if \<not> composes w method (BaseURL w @ endpoint) then (Inl ErrFailedToComposeRequest, w)
      else
        (case httpClient_Do method endpoint body w of
           (DoError err, w1) \<Rightarrow> (Inl (ErrFailedToVisitPage @ '': '' @ err), w1)
         | (DoResponse resp, w1) \<Rightarrow>
             if StatusCode resp \<noteq> 200 then
               (Inl (ErrNon200StatusCode @ '': '' @ decimal (StatusCode resp)), w1)
             else if \<not> bodyReads resp then (Inl ErrFailedToReadResponse, w1)
             else (Inr resp, w1)))"

text \<open>
  \<open>doRequest\<close> called with \<open>tryLogin = false\<close>, as \<open>login\<close> calls it: with that argument
  neither of the two branches that log in can be taken, and what is left is the check on
  the credentials and the request itself. (\<open>doRequest\<close> in full comes after \<open>login\<close>,
  which it calls.)
\<close>

definition doRequest_noLogin ::
  "string \<Rightarrow> string \<Rightarrow> Values option \<Rightarrow> Client \<Rightarrow> world \<Rightarrow> (error + response) \<times> world" where
  "doRequest_noLogin method endpoint body a w =
     (if credentials a = emptyCredentials then
        (Inl (ErrFailedLogin @ '': invalid credentials''), w)
      else sendRequest method endpoint body w)"

text \<open>\<open>login\<close>, lines 271 to 291: the form data of the submission.\<close>

definition loginRequestData :: "Client \<Rightarrow> LoginFormFields \<Rightarrow> Values" where
  "loginRequestData a loginForm =
     (let d0 = Values_Set verificationTokenName (VerificationToken loginForm) [];
          d1 = Values_Set ''_UserName'' (Username (credentials a)) d0;
          d2 = Values_Set ''_Password'' (Password (credentials a)) d1;
          d3 = Values_Set ''_QString'' [] d2;
          d4 = Values_Set ''honeypot'' [] d3;
          d5 = (if Salt loginForm \<noteq> [] then Values_Set ''Salt'' (Salt loginForm) d4 else d4);
          d6 = (if SecretNumber loginForm \<noteq> []
                then Values_Set ''SecretNumber'' (SecretNumber loginForm) d5 else d5);
          d7 = (if Signature loginForm \<noteq> []
                then Values_Set ''Signature'' (Signature loginForm) d6 else d6);
          d8 = (if Challenge loginForm \<noteq> []
                then Values_Set ''Challenge'' (Challenge loginForm) d7 else d7)
      in d8)"

text \<open>
  \<open>login\<close>, lines 293 to 316: the challenge, solved when a solver is configured and the
  page carries a Turnstile site key. The result is an error or the form data to submit.
\<close>

definition loginSolveCaptcha ::
  "Client \<Rightarrow> LoginFormFields \<Rightarrow> Values \<Rightarrow> world \<Rightarrow> (error + Values) \<times> world" where
  "loginSolveCaptcha a loginForm d w =
     (if capsolverClient a \<noteq> None then
        (if TurnstileSiteKey loginForm \<noteq> [] then
           (case SolveTurnstile (solves w (solveCalls w)) (BaseURL w) (TurnstileSiteKey loginForm) of
              ((lastErr, turnstileToken), evs) \<Rightarrow>
                (let w1 = w\<lparr>solveCalls := Suc (solveCalls w), events := events w @ evs\<rparr>
                 in case lastErr of
                      Some err \<Rightarrow>
                        (Inl (ErrFailedLogin @ '': failed to solve Turnstile CAPTCHA: '' @ err), w1)
                    | None \<Rightarrow>
                        (Inr (Values_Set ''cf-turnstile-response'' turnstileToken
                               (Values_Set ''_QString'' ''test''
                                 (Values_Set ''RecaptchaToken'' turnstileToken d))), w1)))
         else (Inr d, w))
      else (Inr d, w))"

text \<open>\<open>login\<close>, lines 345 to 372: what the answer to the submission means.\<close>

definition loginClassify :: "Client \<Rightarrow> response \<Rightarrow> world \<Rightarrow> error option \<times> Client \<times> world" where
  "loginClassify a loginResponse w =
     (if URLPath loginResponse = loginRequestEndpoint then (Some ErrInvalidCredentials, a, w)
      else if \<not> IsLoggedIn (Body loginResponse) then (Some ErrFailedLogin, a, w)
      else if \<not> jarLoggedIn w then (Some ErrFailedLogin, a, w)
      else
        (case time_Now w of
           (now, w1) \<Rightarrow> (None, a\<lparr>didLogin := True, lastLoginSuccess := now\<rparr>, w1)))"

text \<open>\<open>login\<close>, lines 249 to 343: the attempt, from the record of its time on.\<close>

definition loginAttempt :: "Client \<Rightarrow> world \<Rightarrow> error option \<times> Client \<times> world" where
  "loginAttempt a0 w0 =
     (case time_Now w0 of
        (now, w1) \<Rightarrow>
          (let a = a0\<lparr>lastAttempt := now\<rparr> in
           case doRequest_noLogin MethodGet ''/'' None a w1 of
             (Inl err, w2) \<Rightarrow> (Some (ErrFailedLogin @ '': '' @ err), a, w2)
           | (Inr resp, w2) \<Rightarrow>
               (case ParseLoginForm (Body resp) of
                  Inl err \<Rightarrow> (Some (ErrFailedLogin @ '': '' @ ErrFailedToParsePage), a, w2)
                | Inr loginForm \<Rightarrow>
                    if VerificationToken loginForm = [] then
                      (Some (ErrFailedLogin @ '': '' @ ErrFailedToParsePage), a, w2)
                    else
                      (case loginSolveCaptcha a loginForm (loginRequestData a loginForm) w2 of
                         (Inl err, w3) \<Rightarrow> (Some err, a, w3)
                       | (Inr d, w3) \<Rightarrow>
                           (case doRequest_noLogin MethodPost loginRequestEndpoint (Some d) a w3 of
                              (Inl err, w4) \<Rightarrow> (Some (ErrFailedLogin @ '': '' @ err), a, w4)
                            | (Inr loginResponse, w4) \<Rightarrow> loginClassify a loginResponse w4)))))"

text \<open>
  \<open>login\<close>. The conjunction of the reuse check reads the clock only when the cookie jar
  looks logged in, as \<open>&&\<close> does.
\<close>

definition login :: "bool \<Rightarrow> Client \<Rightarrow> world \<Rightarrow> error option \<times> Client \<times> world" where
  "login force a w =
     (if \<not> force then
        (case (if jarLoggedIn w
               then (case time_Now w of
                       (now, w1) \<Rightarrow> (time_Sub now (lastLoginSuccess a) < Hour, w1))
               else (False, w)) of
           (reuse, w1) \<Rightarrow>
             if reuse then (None, a\<lparr>didLogin := True\<rparr>, w1)
             else
               (case time_Now w1 of
                  (now, w2) \<Rightarrow>
                    if time_Sub now (lastAttempt a) < Minute * 2 then
                      (if didLogin a then (None, a, w2)
                       else (Some ErrLoginThrottled, a, w2))
                    else loginAttempt a w2))
      else loginAttempt a w)"

text \<open>\<open>doRequest\<close>. The body of a replayed request has been read by the first one.\<close>

definition doRequest ::
  "bool \<Rightarrow> string \<Rightarrow> string \<Rightarrow> Values option \<Rightarrow> Client \<Rightarrow> world
    \<Rightarrow> (error + response) \<times> Client \<times> world" where
  "doRequest tryLogin method endpoint body a w =
     (if credentials a = emptyCredentials then
        (Inl (ErrFailedLogin @ '': invalid credentials''), a, w)
      else
        (case (if tryLogin \<and> \<not> didLogin a
               then (case login False a w of (err, a1, w1) \<Rightarrow> (err, False, a1, w1))
               else (None, tryLogin, a, w)) of
           (Some err, tryLogin1, a1, w1) \<Rightarrow> (Inl err, a1, w1)
         | (None, tryLogin1, a1, w1) \<Rightarrow>
             (case sendRequest method endpoint body w1 of
                (Inl err, w2) \<Rightarrow> (Inl err, a1, w2)
              | (Inr resp, w2) \<Rightarrow>
                  if tryLogin1 \<and> credentials a1 \<noteq> emptyCredentials \<and> \<not> IsLoggedIn (Body resp)
                  then
                    (case login True a1 w2 of
                       (Some err, a2, w3) \<Rightarrow> (Inl ErrFailedLogin, a2, w3)
                     | (None, a2, w3) \<Rightarrow>
                         (case doRequest_noLogin method endpoint (map_option (\<lambda>d. []) body) a2 w3 of
                            (res, w4) \<Rightarrow> (res, a2, w4)))
                  else (Inr resp, a1, w2))))"

text \<open>
  \<open>NewClient\<close>. The http client passed is nil (\<open>None\<close>) or has a cookie jar or not; a
  client made here starts with an empty jar. The Go function returns a client and an
  error: a nil client with an error (\<open>NoClient\<close>), or the client with the error of its
  login, nil when there was none (\<open>Constructed\<close>).
\<close>

datatype constructed = NoClient error | Constructed Client "error option"

definition newClientValue :: "Credentials \<Rightarrow> Client" where
  "newClientValue cred =
     \<lparr>credentials = cred, capsolverClient = None, lastAttempt = 0, lastLoginSuccess = 0,
      didLogin = False\<rparr>"


text \<open>The options of \<open>NewClientWithOptions\<close>, and what applying one does.\<close>

datatype ClientOption = WithTLSClient | WithCapSolver string

definition applyOption :: "ClientOption \<Rightarrow> Client \<Rightarrow> world \<Rightarrow> error option \<times> Client \<times> world" where
  "applyOption opt c w =
     (case opt of
        WithTLSClient \<Rightarrow>
          (case tlsClientErr w of
             Some err \<Rightarrow> (Some (''failed to create TLS client: '' @ err), c, w)
           | None \<Rightarrow> (None, c, w\<lparr>jarLoggedIn := False\<rparr>))
      | WithCapSolver key \<Rightarrow>
          if key = [] then (Some ''CapSolver API key cannot be empty'', c, w)
          else (None, c\<lparr>capsolverClient := Some (capsolver_NewClient key)\<rparr>, w))"

fun applyOptions :: "ClientOption list \<Rightarrow> Client \<Rightarrow> world \<Rightarrow> error option \<times> Client \<times> world" where
  "applyOptions [] c w = (None, c, w)"
| "applyOptions (opt # opts) c w =
     (case applyOption opt c w of
        (Some err, c1, w1) \<Rightarrow> (Some (''failed to apply client option: '' @ err), c1, w1)
      | (None, c1, w1) \<Rightarrow> applyOptions opts c1 w1)"

text \<open>
  \<open>NewClientWithOptions\<close>. No option takes the cookie jar away (the TLS client comes with
  one), so the check for a missing jar after the options cannot fail.
\<close>

definition NewClientWithOptions ::
  "Credentials \<Rightarrow> ClientOption list \<Rightarrow> world \<Rightarrow> constructed \<times> world" where
  "NewClientWithOptions cred opts w =
     (if cookiejarErr w then (NoClient ErrInternalFailure, w)
      else
        (case applyOptions opts (newClientValue cred) (w\<lparr>jarLoggedIn := False\<rparr>) of
           (Some err, client, w1) \<Rightarrow> (NoClient err, w1)
         | (None, client, w1) \<Rightarrow>
             if cred = emptyCredentials then (Constructed client None, w1)
             else (case login False client w1 of
                     (err, client1, w2) \<Rightarrow> (Constructed client1 err, w2))))"







section \<open>The session cache (package server, session\_cache.go)\<close>

record 'c cachedSession =
  client :: 'c
  createdAt :: Time
  lastUsed :: Time

record 'c SessionCache =
  sessions :: "string \<rightharpoonup> 'c cachedSession"
  ttl :: Duration

definition DefaultSessionTTL :: Duration where
  "DefaultSessionTTL = 30 * Minute"

text \<open>\<open>NewSessionCache\<close> (the sweep it starts is \<open>cleanup\<close> below, run every 5 minutes).\<close>

definition NewSessionCache :: "Duration \<Rightarrow> 'c SessionCache" where
  "NewSessionCache t =
     \<lparr>sessions = Map.empty, ttl = (if t \<le> 0 then DefaultSessionTTL else t)\<rparr>"

definition makeKey :: "string \<Rightarrow> string \<Rightarrow> string" where
  "makeKey username password = username @ '':'' @ password"

definition logEvents :: "event list \<Rightarrow> world \<Rightarrow> world" where
  "logEvents evs w = w\<lparr>events := events w @ evs\<rparr>"

definition Delete :: "string \<Rightarrow> string \<Rightarrow> 'c SessionCache \<Rightarrow> world \<Rightarrow> 'c SessionCache \<times> world" where
  "Delete username password sc w =
     (sc\<lparr>sessions := (sessions sc)(makeKey username password := None)\<rparr>,
      logEvents [EvLock, EvUnlock] w)"

definition Get ::
  "string \<Rightarrow> string \<Rightarrow> 'c SessionCache \<Rightarrow> world \<Rightarrow> 'c option \<times> 'c SessionCache \<times> world" where
  "Get username password sc w =
     (let key = makeKey username password;
          w1 = logEvents [EvRLock, EvRUnlock] w
      in case sessions sc key of
           None \<Rightarrow> (None, sc, w1)
         | Some session \<Rightarrow>
             (case time_Now w1 of
                (now, w2) \<Rightarrow>
                  if time_Sub now (createdAt session) > ttl sc then
                    (case Delete username password sc w2 of (sc1, w3) \<Rightarrow> (None, sc1, w3))
                  else
                    (case time_Now (logEvents [EvLock] w2) of
                       (now2, w3) \<Rightarrow>
                         (Some (client session),
                          sc\<lparr>sessions := (sessions sc)(key \<mapsto> session\<lparr>lastUsed := now2\<rparr>)\<rparr>,
                          logEvents [EvUnlock] w3))))"

definition Set ::
  "string \<Rightarrow> string \<Rightarrow> 'c \<Rightarrow> 'c SessionCache \<Rightarrow> world \<Rightarrow> 'c SessionCache \<times> world" where
  "Set username password c sc w =
     (case time_Now w of
        (now, w1) \<Rightarrow>
          (sc\<lparr>sessions := (sessions sc)(makeKey username password \<mapsto>
                \<lparr>client = c, createdAt = now, lastUsed = now\<rparr>)\<rparr>,
           logEvents [EvLock, EvUnlock] w1))"

text \<open>
  \<open>cleanup\<close>. The first loop ranges over the map; Go leaves the order open, so the order
  in which the keys come is a parameter. The second loop deletes what the first found.
\<close>

fun cleanup_expired ::
  "Time \<Rightarrow> Duration \<Rightarrow> (string \<rightharpoonup> 'c cachedSession) \<Rightarrow> string list \<Rightarrow> string list \<Rightarrow> string list" where
  "cleanup_expired now t m [] expired = expired"
| "cleanup_expired now t m (key # keys) expired =
     (case m key of
        None \<Rightarrow> cleanup_expired now t m keys expired
      | Some session \<Rightarrow>
          if time_Sub now (createdAt session) > t
          then cleanup_expired now t m keys (expired @ [key])
          else cleanup_expired now t m keys expired)"

fun cleanup_delete ::
  "string list \<Rightarrow> (string \<rightharpoonup> 'c cachedSession) \<Rightarrow> (string \<rightharpoonup> 'c cachedSession)" where
  "cleanup_delete [] m = m"
| "cleanup_delete (key # keys) m = cleanup_delete keys (m(key := None))"

definition cleanup :: "string list \<Rightarrow> 'c SessionCache \<Rightarrow> world \<Rightarrow> 'c SessionCache \<times> world" where
  "cleanup order sc w =
     (case time_Now (logEvents [EvLock] w) of
        (now, w1) \<Rightarrow>
          (let expired = cleanup_expired now (ttl sc) (sessions sc) order []
           in (sc\<lparr>sessions := cleanup_delete expired (sessions sc)\<rparr>,
               logEvents [EvUnlock] w1)))"

text \<open>
  \<open>GetOrCreate\<close>, lines 111 to 146: the creation under the exclusive lock, released by
  the deferred \<open>Unlock\<close> on every return. \<open>exists && time.Since(session.createdAt) <=
  sc.ttl\<close> reads the clock only when the entry exists.
\<close>

definition GetOrCreate_create ::
  "string \<Rightarrow> string \<Rightarrow> Client SessionCache \<Rightarrow> world
    \<Rightarrow> (error + Client) \<times> Client SessionCache \<times> world" where
  "GetOrCreate_create username password sc w =
     (let key = makeKey username password;
          opts = [WithTLSClient]
                 @ (if envCapsolverKey w \<noteq> [] then [WithCapSolver (envCapsolverKey w)] else [])
      in case NewClientWithOptions \<lparr>Username = username, Password = password\<rparr> opts w of
           (NoClient err, w1) \<Rightarrow> (Inl err, sc, logEvents [EvUnlock] w1)
         | (Constructed c (Some err), w1) \<Rightarrow> (Inl err, sc, logEvents [EvUnlock] w1)
         | (Constructed c None, w1) \<Rightarrow>
             (case time_Now w1 of
                (now, w2) \<Rightarrow>
                  (Inr c,
                   sc\<lparr>sessions := (sessions sc)(key \<mapsto>
                         \<lparr>client = c, createdAt = now, lastUsed = now\<rparr>)\<rparr>,
                   logEvents [EvUnlock] w2)))"

definition GetOrCreate_locked ::
  "string \<Rightarrow> string \<Rightarrow> Client SessionCache \<Rightarrow> world
    \<Rightarrow> (error + Client) \<times> Client SessionCache \<times> world" where
  "GetOrCreate_locked username password sc w =
     (let w1 = logEvents [EvLock] w in
      case sessions sc (makeKey username password) of
        None \<Rightarrow> GetOrCreate_create username password sc w1
      | Some session \<Rightarrow>
          (case time_Now w1 of
             (now, w2) \<Rightarrow>
               if time_Sub now (createdAt session) \<le> ttl sc
               then (Inr (client session), sc, logEvents [EvUnlock] w2)
               else GetOrCreate_create username password sc w2))"

definition GetOrCreate ::
  "string \<Rightarrow> string \<Rightarrow> Client SessionCache \<Rightarrow> world
    \<Rightarrow> (error + Client) \<times> Client SessionCache \<times> world" where
  "GetOrCreate username password sc w =
     (let key = makeKey username password;
          w1 = logEvents [EvRLock, EvRUnlock] w
      in case sessions sc key of
           None \<Rightarrow> GetOrCreate_locked username password sc w1
         | Some session \<Rightarrow>
             (case time_Now w1 of
                (now, w2) \<Rightarrow>
                  if time_Sub now (createdAt session) \<le> ttl sc then
                    (case time_Now (logEvents [EvLock] w2) of
                       (now2, w3) \<Rightarrow>
                         (Inr (client session),
                          sc\<lparr>sessions := (sessions sc)(key \<mapsto> session\<lparr>lastUsed := now2\<rparr>)\<rparr>,
                          logEvents [EvUnlock] w3))
                  else GetOrCreate_locked username password sc w2))"

section \<open>Regular expressions, as package regexp matches them\<close>

text \<open>
  The syntax of the expressions the parsers use: a character class, sequence,
  alternation, the greedy operators \<open>?\<close>, \<open>*\<close> and \<open>+\<close>, and a numbered capturing group.
\<close>

datatype regex =
    Cls "char list"
  | Seq regex regex
  | Alt regex regex
  | Opt regex
  | Star regex
  | Plus regex
  | Group nat regex

text \<open>
  A matcher state is the input still to read and the groups captured so far. Matching an
  expression from a state gives the states it can end in, in the order of preference of a
  backtracking search, which is the order Go's leftmost-first matching follows: a greedy
  operator prefers to match more.
\<close>

type_synonym mstate = "string \<times> (nat \<times> string) list"

primrec iterate :: "nat \<Rightarrow> (mstate \<Rightarrow> mstate list) \<Rightarrow> mstate \<Rightarrow> mstate list" where
  "iterate 0 step st = [st]"
| "iterate (Suc n) step st =
     concat (map (iterate n step)
               (filter (\<lambda>st'. length (fst st') < length (fst st)) (step st))) @ [st]"

primrec rmatch :: "regex \<Rightarrow> mstate \<Rightarrow> mstate list" where
  "rmatch (Cls cs) st =
     (case fst st of
        [] \<Rightarrow> []
      | c # rest \<Rightarrow> if c \<in> set cs then [(rest, snd st)] else [])"
| "rmatch (Seq r1 r2) st = concat (map (rmatch r2) (rmatch r1 st))"
| "rmatch (Alt r1 r2) st = rmatch r1 st @ rmatch r2 st"
| "rmatch (Opt r) st = rmatch r st @ [st]"
| "rmatch (Star r) st = iterate (length (fst st)) (rmatch r) st"
| "rmatch (Plus r) st =
     concat (map (\<lambda>st'. iterate (length (fst st')) (rmatch r) st') (rmatch r st))"
| "rmatch (Group i r) st =
     map (\<lambda>st'. (fst st', (i, take (length (fst st) - length (fst st')) (fst st)) # snd st'))
       (rmatch r st)"

text \<open>The leftmost match: the first start position from which the expression matches.\<close>

fun leftmost :: "regex \<Rightarrow> string \<Rightarrow> (string \<times> (nat \<times> string) list) option" where
  "leftmost r [] =
     (case rmatch r ([], []) of [] \<Rightarrow> None | st # sts \<Rightarrow> Some ([], snd st))"
| "leftmost r (c # cs) =
     (case rmatch r (c # cs, []) of
        [] \<Rightarrow> leftmost r cs
      | st # sts \<Rightarrow> Some (take (length (c # cs) - length (fst st)) (c # cs), snd st))"

definition submatch :: "(nat \<times> string) list \<Rightarrow> nat \<Rightarrow> string" where
  "submatch caps i = (case map_of caps i of None \<Rightarrow> [] | Some t \<Rightarrow> t)"

text \<open>
  \<open>FindStringSubmatch\<close> of an expression with \<open>n\<close> groups: the match and its groups, or
  the empty slice (nil). \<open>FindString\<close>: the match, or the empty string.
\<close>

definition FindStringSubmatch :: "regex \<Rightarrow> nat \<Rightarrow> string \<Rightarrow> string list" where
  "FindStringSubmatch r n s =
     (case leftmost r s of
        None \<Rightarrow> []
      | Some (whole, caps) \<Rightarrow> whole # map (submatch caps) [1..<Suc n])"

definition FindString :: "regex \<Rightarrow> string \<Rightarrow> string" where
  "FindString r s = (case leftmost r s of None \<Rightarrow> [] | Some (whole, caps) \<Rightarrow> whole)"

definition digit :: regex where
  "digit = Cls ''0123456789''"

definition space :: regex where
  "space = Cls [CHR 0x09, CHR 0x0A, CHR 0x0C, CHR 0x0D, CHR '' '']"

definition Lit :: "char \<Rightarrow> regex" where
  "Lit c = Cls [c]"

text \<open>\<open>\d+(?:\.\d+)?\<close>\<close>

definition number :: regex where
  "number = Seq (Plus digit) (Opt (Seq (Lit CHR ''.'') (Plus digit)))"

text \<open>\<open>(\d+)\s*/\s*(\d+)\<close>\<close>

definition attendanceRegexp :: regex where
  "attendanceRegexp =
     Seq (Group 1 (Plus digit))
       (Seq (Star space) (Seq (Lit CHR ''/'') (Seq (Star space) (Group 2 (Plus digit)))))"

text \<open>\<open>(\d+(?:\.\d+)?)\[[\d\.\+]+\]/(\d+(?:\.\d+)?)\<close>\<close>

definition newFormatRegexp :: regex where
  "newFormatRegexp =
     Seq (Group 1 number)
       (Seq (Lit CHR ''['')
          (Seq (Plus (Cls ''0123456789.+''))
             (Seq (Lit CHR '']'') (Seq (Lit CHR ''/'') (Group 2 number)))))"

text \<open>\<open>(\d+(?:\.\d+)?)\s*(?:/|\[)\s*(\d+(?:\.\d+)?)\<close>\<close>

definition pairRegexp :: regex where
  "pairRegexp =
     Seq (Group 1 number)
       (Seq (Star space)
          (Seq (Alt (Lit CHR ''/'') (Lit CHR ''[''))
             (Seq (Star space) (Group 2 number))))"

section \<open>Numbers from text, as package strconv reads them\<close>

definition digitValue :: "char \<Rightarrow> nat option" where
  "digitValue c =
     (let v = (of_char c :: nat) in if 48 \<le> v \<and> v \<le> 57 then Some (v - 48) else None)"

text \<open>The value of a string of decimal digits, \<open>None\<close> when a character is no digit.\<close>

fun digitsValue :: "string \<Rightarrow> nat \<Rightarrow> nat option" where
  "digitsValue [] acc = Some acc"
| "digitsValue (c # cs) acc =
     (case digitValue c of None \<Rightarrow> None | Some d \<Rightarrow> digitsValue cs (10 * acc + d))"

text \<open>
  \<open>strconv.Atoi\<close> on an unsigned decimal (all that \<open>(\d+)\<close> captures): a range error
  past the largest int. A sign, which Go would read, is never passed and counts as a
  syntax error here.
\<close>

definition Atoi :: "string \<Rightarrow> error + int" where
  "Atoi s =
     (if s = [] then Inl ''invalid syntax''
      else (case digitsValue s 0 of
              None \<Rightarrow> Inl ''invalid syntax''
            | Some n \<Rightarrow> if int n > 2 ^ 63 - 1 then Inl ''value out of range'' else Inr (int n)))"

text \<open>The conversion \<open>int32(v)\<close> keeps the low 32 bits.\<close>

definition int32 :: "int \<Rightarrow> int" where
  "int32 v = (v + 2 ^ 31) mod 2 ^ 32 - 2 ^ 31"

text \<open>
  A float32 is represented by the rational number it holds. \<open>roundFloat32\<close> is rounding
  to the nearest float32, ties to even, of a ratio \<open>n / d\<close> of naturals (\<open>d > 0\<close>):
  the number is brought to \<open>m * 2 ^ e\<close> with a mantissa of 24 bits (fewer below the
  normal range, where the exponent stays at -149), and a result of \<open>2 ^ 128\<close> or more is
  out of range.
\<close>

function bitlen :: "nat \<Rightarrow> nat" where
  "bitlen n = (if n = 0 then 0 else Suc (bitlen (n div 2)))"
  by pat_completeness auto
termination
  by (relation "measure (\<lambda>n. n)") auto

declare bitlen.simps [simp del]

definition floorLog2 :: "nat \<Rightarrow> nat \<Rightarrow> int" where
  "floorLog2 n d =
     (let l = int (bitlen n) - int (bitlen d)
      in if (if l \<ge> 0 then n \<ge> d * 2 ^ nat l else n * 2 ^ nat (- l) \<ge> d) then l else l - 1)"

definition roundHalfEven :: "nat \<Rightarrow> nat \<Rightarrow> nat" where
  "roundHalfEven n d =
     (let q = n div d; r = n mod d
      in if 2 * r < d then q
         else if 2 * r > d then Suc q
         else if even q then q else Suc q)"

definition roundFloat32 :: "nat \<Rightarrow> nat \<Rightarrow> rat option" where
  "roundFloat32 n d =
     (if n = 0 then Some 0
      else
        (let e = max (floorLog2 n d - 23) (- 149);
             m = (if e \<ge> 0 then roundHalfEven n (d * 2 ^ nat e)
                  else roundHalfEven (n * 2 ^ nat (- e)) d);
             v = (if e \<ge> 0 then of_nat m * 2 ^ nat e else of_nat m / 2 ^ nat (- e))
         in if v \<ge> 2 ^ 128 then None else Some v))"

text \<open>
  \<open>strconv.ParseFloat(s, 32)\<close> on digits with an optional fraction (all that
  \<open>\d+(?:\.\d+)?\<close> captures), converted by \<open>float32\<close>: the nearest float32, or a
  range error when that is infinite. Go reads more forms of numbers (signs, exponents,
  a bare point); the parsers never pass one, and here they count as a syntax error.
\<close>

definition ParseFloat32 :: "string \<Rightarrow> error + rat" where
  "ParseFloat32 s =
     (let ip = takeWhile (\<lambda>c. c \<noteq> CHR ''.'') s;
          rest = dropWhile (\<lambda>c. c \<noteq> CHR ''.'') s;
          fp = (if rest = [] then [] else tl rest)
      in if ip = [] \<or> (rest \<noteq> [] \<and> fp = []) then Inl ''invalid syntax''
         else (case digitsValue (ip @ fp) 0 of
                 None \<Rightarrow> Inl ''invalid syntax''
               | Some n \<Rightarrow>
                   (case roundFloat32 n (10 ^ length fp) of
                      None \<Rightarrow> Inl ''value out of range''
                    | Some v \<Rightarrow> Inr v)))"

section \<open>The courses page (package parse, courses.go)\<close>

text \<open>The functions of package strings that are used, on ASCII text.\<close>

definition ToUpper :: "string \<Rightarrow> string" where
  "ToUpper s =
     map (\<lambda>c. let v = (of_char c :: nat) in if 97 \<le> v \<and> v \<le> 122 then char_of (v - 32) else c) s"

definition isSpace :: "char \<Rightarrow> bool" where
  "isSpace c \<longleftrightarrow> c \<in> set [CHR 0x09, CHR 0x0A, CHR 0x0B, CHR 0x0C, CHR 0x0D, CHR '' '']"

definition TrimSpace :: "string \<Rightarrow> string" where
  "TrimSpace s = rev (dropWhile isSpace (rev (dropWhile isSpace s)))"

definition RemoveAll :: "char \<Rightarrow> string \<Rightarrow> string" where
  "RemoveAll c s = filter (\<lambda>x. x \<noteq> c) s"

fun Contains :: "string \<Rightarrow> string \<Rightarrow> bool" where
  "Contains [] substr = (substr = [])"
| "Contains (c # cs) substr =
     (take (length substr) (c # cs) = substr \<or> Contains cs substr)"

definition isNAValue :: "string \<Rightarrow> bool" where
  "isNAValue s =
     (if s = [] then True
      else
        (let normal = ToUpper (TrimSpace s);
             normal1 = RemoveAll CHR ''.'' normal;
             normal2 = RemoveAll CHR '' '' normal1
         in if normal2 = ''NA'' \<or> normal2 = ''N/A'' then True
            else if normal2 = ''-'' \<or> normal2 = ''--'' then True
            else False))"

definition isNonNumericValue :: "string \<Rightarrow> bool" where
  "isNonNumericValue s =
     (let upper = ToUpper s
      in Contains upper ''NOT PUBLISHED'' \<or> Contains upper ''NOT AVAILABLE''
         \<or> Contains upper ''NOT APPLICABLE'' \<or> Contains upper ''VIEW'')"

record Attendance =
  ClassesAttended :: int
  ClassesHeld :: int

record Marks =
  Have :: rat
  Max' :: rat

record Course =
  Name :: string
  Code :: string
  Type :: string
  Attendance :: Attendance
  InternalMarks :: Marks
  SyllabusDoc :: string

text \<open>
  A row of a course table: the text of the cells of a given \<open>data-title\<close>, and the
  \<open>href\<close> of the link in the syllabus cell. \<open>CleanString\<close> of package parse is not among
  the sources; it is the parameter \<open>clean\<close>.
\<close>

record row =
  cellText :: "string \<Rightarrow> string"
  syllabusHref :: "string option"

definition emptyAttendance :: Attendance where
  "emptyAttendance = \<lparr>ClassesAttended = 0, ClassesHeld = 0\<rparr>"

definition emptyMarks :: Marks where
  "emptyMarks = \<lparr>Have = 0, Max' = 0\<rparr>"

definition rowAttendance :: "(string \<Rightarrow> string) \<Rightarrow> row \<Rightarrow> Attendance" where
  "rowAttendance clean r =
     (let raw = cellText r ''Attendance''; cleanRaw = clean raw
      in if isNAValue cleanRaw then emptyAttendance
         else
           (let m = FindStringSubmatch attendanceRegexp 2 cleanRaw
            in if length m < 3 then emptyAttendance
               else (case (Atoi (m ! 1), Atoi (m ! 2)) of
                       (Inr attended, Inr held) \<Rightarrow>
                         \<lparr>ClassesAttended = int32 attended, ClassesHeld = int32 held\<rparr>
                     | _ \<Rightarrow> emptyAttendance)))"

definition rowInternalMarks :: "(string \<Rightarrow> string) \<Rightarrow> row \<Rightarrow> Marks" where
  "rowInternalMarks clean r =
     (let raw = cellText r ''Internal Asses.''; cleanRaw = clean raw
      in if isNAValue cleanRaw \<or> isNonNumericValue cleanRaw then emptyMarks
         else
           (let newFormat = FindStringSubmatch newFormatRegexp 2 cleanRaw
            in if length newFormat \<ge> 3 then
                 (case (ParseFloat32 (newFormat ! 1), ParseFloat32 (newFormat ! 2)) of
                    (Inr h, Inr m) \<Rightarrow> \<lparr>Have = h, Max' = m\<rparr>
                  | _ \<Rightarrow> emptyMarks)
               else
                 (let pair = FindStringSubmatch pairRegexp 2 cleanRaw
                  in if length pair \<ge> 3 then
                       (case (ParseFloat32 (pair ! 1), ParseFloat32 (pair ! 2)) of
                          (Inr h, Inr m) \<Rightarrow> \<lparr>Have = h, Max' = m\<rparr>
                        | _ \<Rightarrow> emptyMarks)
                     else
                       (let gotStr = FindString number cleanRaw
                        in if gotStr = [] then emptyMarks
                           else (case ParseFloat32 gotStr of
                                   Inl err \<Rightarrow> emptyMarks
                                 | Inr got \<Rightarrow> \<lparr>Have = got, Max' = 0\<rparr>)))))"

definition rowCourse :: "(string \<Rightarrow> string) \<Rightarrow> row \<Rightarrow> Course" where
  "rowCourse clean r =
     \<lparr>Name = clean (cellText r ''Course Name''),
      Code = clean (cellText r ''Course Code''),
      Type = clean (cellText r ''Type''),
      Attendance = rowAttendance clean r,
      InternalMarks = rowInternalMarks clean r,
      SyllabusDoc = AttrOr (syllabusHref r) []\<rparr>"

text \<open>
  The courses document, as far as \<open>Courses\<close> looks at it: whether goquery can read it,
  the verdict of \<open>IsLoggedInDOM\<close>, the text of the active breadcrumb, the number of cells
  of a given \<open>data-title\<close>, the number of elements the selector of the primary table
  matches after \<open>normalisePage\<close>, the data rows of that table, and the data rows of the
  secondary table that \<open>AddSelection\<close> adds to them.
\<close>

record coursesDoc =
  docReadable :: bool
  docLoggedIn :: bool
  activeBreadcrumb :: string
  dataCells :: "string \<Rightarrow> nat"
  primaryTableMatches :: nat
  primaryEntries :: "row list"
  secondaryEntries :: "row list"

definition ErrFailedToParseDOM :: error where
  "ErrFailedToParseDOM = ''failed to parse DOM''"

definition ErrNotLoggedIn :: error where
  "ErrNotLoggedIn = ''not logged in''"

definition ErrFailedToParse :: error where
  "ErrFailedToParse = ''failed to parse''"

definition isCoursesPage :: "coursesDoc \<Rightarrow> bool" where
  "isCoursesPage doc \<longleftrightarrow>
     activeBreadcrumb doc = ''My Courses''
     \<or> (dataCells doc ''Course Code'' \<noteq> 0 \<and> dataCells doc ''Attendance'' \<noteq> 0)"

definition Courses :: "(string \<Rightarrow> string) \<Rightarrow> coursesDoc \<Rightarrow> error + Course list" where
  "Courses clean doc =
     (if \<not> docReadable doc then Inl ErrFailedToParseDOM
      else if \<not> docLoggedIn doc then Inl ErrNotLoggedIn
      else if \<not> isCoursesPage doc then Inl ErrFailedToParse
      else if primaryTableMatches doc \<noteq> 1 then Inl ErrFailedToParse
      else if length (primaryEntries doc) = 0 then Inl ErrFailedToParse
      else Inr (map (rowCourse clean) (primaryEntries doc @ secondaryEntries doc)))"

section \<open>Vocabulary of the properties\<close>

text \<open>The events a call adds to the log: those of the world after it, past those before.\<close>

definition issued :: "world \<Rightarrow> world \<Rightarrow> event list" where
  "issued w w' = drop (length (events w)) (events w')"

definition isRequest :: "event \<Rightarrow> bool" where
  "isRequest e = (case e of EvRequest m ep b \<Rightarrow> True | _ \<Rightarrow> False)"

definition isSolverEvent :: "event \<Rightarrow> bool" where
  "isSolverEvent e =
     (case e of
        EvCreateTask ty u k \<Rightarrow> True
      | EvGetTaskResult t \<Rightarrow> True
      | EvSleep d \<Rightarrow> True
      | EvNewTimer d \<Rightarrow> True
      | EvNewTicker d \<Rightarrow> True
      | _ \<Rightarrow> False)"

definition isLockEvent :: "event \<Rightarrow> bool" where
  "isLockEvent e =
     (case e of EvRLock \<Rightarrow> True | EvRUnlock \<Rightarrow> True | EvLock \<Rightarrow> True | EvUnlock \<Rightarrow> True
      | _ \<Rightarrow> False)"

text \<open>The submission of the login form: a POST of form data to the login endpoint.\<close>

definition isSubmission :: "event \<Rightarrow> bool" where
  "isSubmission e =
     (case e of
        EvRequest m ep b \<Rightarrow> m = MethodPost \<and> ep = loginRequestEndpoint \<and> b \<noteq> None
      | _ \<Rightarrow> False)"

definition loginPageEvent :: event where
  "loginPageEvent = EvRequest MethodGet ''/'' None"

text \<open>
  The two conditions \<open>login\<close> tests when it is not forced: the session can be reused, and
  the time since the last attempt, read after the reuse check.
\<close>

definition reuseApplies :: "Client \<Rightarrow> world \<Rightarrow> bool" where
  "reuseApplies a w \<longleftrightarrow>
     jarLoggedIn w \<and> time_Sub (clock w (clockReads w)) (lastLoginSuccess a) < Hour"

definition sinceLastAttempt :: "Client \<Rightarrow> world \<Rightarrow> Duration" where
  "sinceLastAttempt a w =
     time_Sub (clock w (if jarLoggedIn w then Suc (clockReads w) else clockReads w))
       (lastAttempt a)"

text \<open>
  Whether some exchange with the network (a portal request or a request to the solving
  service) happens in a list of events while the cache's lock is held, \<open>held\<close> telling
  whether it is held at the start.
\<close>

fun ioUnderLock :: "bool \<Rightarrow> event list \<Rightarrow> bool" where
  "ioUnderLock held [] = False"
| "ioUnderLock held (e # es) =
     (case e of
        EvLock \<Rightarrow> ioUnderLock True es
      | EvRLock \<Rightarrow> ioUnderLock True es
      | EvUnlock \<Rightarrow> ioUnderLock False es
      | EvRUnlock \<Rightarrow> ioUnderLock False es
      | EvRequest m ep b \<Rightarrow> held \<or> ioUnderLock held es
      | EvCreateTask ty u k \<Rightarrow> held \<or> ioUnderLock held es
      | EvGetTaskResult t \<Rightarrow> held \<or> ioUnderLock held es
      | _ \<Rightarrow> ioUnderLock held es)"

text \<open>A poll that leaves the task unfinished: it fails on the way, or the status is not ready.\<close>

definition pending :: "poll_reply \<Rightarrow> bool" where
  "pending r =
     (case r of
        GetTaskResultResponse errorID errorCode errorDescription status token \<Rightarrow>
          errorID = 0 \<and> status \<noteq> ''ready''
      | _ \<Rightarrow> True)"

text \<open>
  One create+poll attempt of a solve call, by itself: its result, with the error wrapped
  as the call wraps it (\<open>what\<close> is \<open>turnstile\<close> or \<open>recaptcha\<close>), and its events.
\<close>

definition attemptResult :: "string \<Rightarrow> attempt \<Rightarrow> error + string" where
  "attemptResult what att =
     (case createTask (createReply att) of
        Inl err \<Rightarrow> Inl (''failed to create '' @ what @ '' task: '' @ err)
      | Inr taskID \<Rightarrow>
          (case fst (waitForTaskResult (pollReplies att) taskID) of
             Inl err \<Rightarrow> Inl (''failed to get '' @ what @ '' solution: '' @ err)
           | Inr token \<Rightarrow> Inr token))"

definition attemptEvents :: "string \<Rightarrow> string \<Rightarrow> string \<Rightarrow> attempt \<Rightarrow> event list" where
  "attemptEvents taskType websiteURL websiteKey att =
     EvCreateTask taskType websiteURL websiteKey #
     (case createTask (createReply att) of
        Inl err \<Rightarrow> []
      | Inr taskID \<Rightarrow> snd (waitForTaskResult (pollReplies att) taskID))"

text \<open>
  What the specification says of a solve call: up to three attempts, two seconds of sleep
  before the second and the third, the token of the first attempt that succeeds, and the
  error of the third when all three fail.
\<close>

definition threeAttempts ::
  "string \<Rightarrow> string \<Rightarrow> (nat \<Rightarrow> attempt) \<Rightarrow> string \<Rightarrow> string
    \<Rightarrow> (error option \<times> string) \<times> event list" where
  "threeAttempts what taskType env websiteURL websiteKey =
     (let ev = attemptEvents taskType websiteURL websiteKey;
          backoff = [EvSleep (2 * Second)]
      in case attemptResult what (env 0) of
           Inr token \<Rightarrow> ((None, token), ev (env 0))
         | Inl err0 \<Rightarrow>
             (case attemptResult what (env 1) of
                Inr token \<Rightarrow> ((None, token), ev (env 0) @ backoff @ ev (env 1))
              | Inl err1 \<Rightarrow>
                  (case attemptResult what (env 2) of
                     Inr token \<Rightarrow>
                       ((None, token),
                        ev (env 0) @ backoff @ ev (env 1) @ backoff @ ev (env 2))
                   | Inl err2 \<Rightarrow>
                       ((Some err2, []),
                        ev (env 0) @ backoff @ ev (env 1) @ backoff @ ev (env 2)))))"

section \<open>Examples\<close>

text \<open>
  A login page whose form carries the verification token and none of the other fields, a
  page with no token at all, and the page of a logged-in session.
\<close>

definition tokenOnlyPage :: page where
  "tokenOnlyPage =
     \<lparr>readable = True,
      loginformInput = (\<lambda>n. if n = ''__RequestVerificationToken'' then Some ''tok'' else None),
      scriptTexts = [], IsLoggedIn = False\<rparr>"

definition noTokenPage :: page where
  "noTokenPage =
     \<lparr>readable = True, loginformInput = (\<lambda>n. None), scriptTexts = [], IsLoggedIn = False\<rparr>"

definition homePage :: page where
  "homePage =
     \<lparr>readable = True, loginformInput = (\<lambda>n. None), scriptTexts = [], IsLoggedIn = True\<rparr>"

definition okResponse :: "string \<Rightarrow> page \<Rightarrow> response" where
  "okResponse path pg = \<lparr>StatusCode = 200, URLPath = path, bodyReads = True, Body = pg\<rparr>"

definition exClient :: Client where
  "exClient = newClientValue \<lparr>Username = ''u'', Password = ''p''\<rparr>"

text \<open>
  A world with the clock standing at an hour past the zero Time, no solver key, and a
  transport that answers the first request with the given login page and every later one
  with the home page of a logged-in session.
\<close>

definition exWorld :: "page \<Rightarrow> world" where
  "exWorld loginPage =
     \<lparr>clock = (\<lambda>k. Hour), clockReads = 0,
      transport = (\<lambda>k. if k = 0 then (DoResponse (okResponse ''/'' loginPage), False)
                        else (DoResponse (okResponse ''/Home'' homePage), True)),
      requestsSent = 0, jarLoggedIn = False,
      solves = (\<lambda>k i. \<lparr>createReply = CreatePostError ''down'', pollReplies = []\<rparr>),
      solveCalls = 0,
      composes = (\<lambda>m u. True), AmizoneDomain = ''s.amizone.net'',
      cookiejarErr = False, tlsClientErr = None, envCapsolverKey = [],
      events = []\<rparr>"

definition emptyCache :: "Client SessionCache" where
  "emptyCache = NewSessionCache 0"

definition exCache :: "nat SessionCache" where
  "exCache =
     \<lparr>sessions = [''u:p'' \<mapsto> \<lparr>client = 7, createdAt = Hour, lastUsed = Hour\<rparr>],
      ttl = DefaultSessionTTL\<rparr>"

definition exClientCache :: "Client SessionCache" where
  "exClientCache =
     \<lparr>sessions = [''u:p'' \<mapsto> \<lparr>client = exClient, createdAt = Hour, lastUsed = Hour\<rparr>],
      ttl = DefaultSessionTTL\<rparr>"

definition exWorldAt :: "Time \<Rightarrow> world" where
  "exWorldAt t = (exWorld noTokenPage)\<lparr>clock := (\<lambda>k. t)\<rparr>"

definition processing :: poll_reply where
  "processing = GetTaskResultResponse 0 [] [] ''processing'' []"

definition readyNoToken :: poll_reply where
  "readyNoToken = GetTaskResultResponse 0 [] [] ''ready'' []"

definition exAttempts :: "nat \<Rightarrow> attempt" where
  "exAttempts i =
     (if i = 0 then \<lparr>createReply = CreateTaskResponse 0 [] [] ''t0'',
                     pollReplies = [processing, processing]\<rparr>
      else if i = 1 then \<lparr>createReply = CreateTaskResponse 0 [] [] ''t1'',
                          pollReplies = [processing, readyNoToken]\<rparr>
      else \<lparr>createReply = CreateTaskResponse 0 [] [] [], pollReplies = []\<rparr>)"

definition exRow :: "string \<Rightarrow> row" where
  "exRow marks =
     \<lparr>cellText = (\<lambda>title. if title = ''Internal Asses.'' then marks
                          else if title = ''Attendance'' then ''33/43 (76.74)''
                          else if title = ''Course Code'' then ''CSE303''
                          else ''Compilers''),
      syllabusHref = None\<rparr>"

definition exCoursesDoc :: "string \<Rightarrow> coursesDoc" where
  "exCoursesDoc marks =
     \<lparr>docReadable = True, docLoggedIn = True, activeBreadcrumb = ''My Courses'',
      dataCells = (\<lambda>title. 1), primaryTableMatches = 1,
      primaryEntries = [exRow marks], secondaryEntries = []\<rparr>"

section \<open>Properties\<close>

lemma isSubmission_isRequest: "isSubmission e \<Longrightarrow> isRequest e"
  by (cases e) (simp_all add: isSubmission_def isRequest_def)

lemma solver_not_request: "isSolverEvent e \<Longrightarrow> \<not> isRequest e"
  by (cases e) (simp_all add: isSolverEvent_def isRequest_def)

lemma solver_not_lock: "isSolverEvent e \<Longrightarrow> \<not> isLockEvent e"
  by (cases e) (simp_all add: isSolverEvent_def isLockEvent_def)

lemma solver_not_submission: "\<forall>e\<in>set evs. isSolverEvent e \<Longrightarrow> \<forall>e\<in>set evs. \<not> isSubmission e"
  using isSubmission_isRequest solver_not_request by blast

lemma sendRequest_cases:
  assumes "sendRequest m ep b w = (r, w')"
  shows "(w' = w \<and> r = Inl ErrFailedToComposeRequest \<and> \<not> composes w m (BaseURL w @ ep))
       \<or> (composes w m (BaseURL w @ ep) \<and> 
          w' = w\<lparr>requestsSent := Suc (requestsSent w),
                 jarLoggedIn := snd (transport w (requestsSent w)),
                 events := events w @ [EvRequest m ep b]\<rparr>
          \<and> (case fst (transport w (requestsSent w)) of
                DoError err \<Rightarrow> r = Inl (ErrFailedToVisitPage @ '': '' @ err)
              | DoResponse resp \<Rightarrow>
                  r = (if StatusCode resp \<noteq> 200
                       then Inl (ErrNon200StatusCode @ '': '' @ decimal (StatusCode resp))
                       else if \<not> bodyReads resp then Inl ErrFailedToReadResponse
                       else Inr resp)))"
  using assms
  by (auto simp add: sendRequest_def httpClient_Do_def split: prod.splits http_reply.splits if_splits)

lemma waitForTaskResult_events:
  "\<forall>e\<in>set (snd (waitForTaskResult polls t)). isSolverEvent e"
  by (simp add: waitForTaskResult_def isSolverEvent_def split: prod.splits)

lemma SolveTurnstile_loop_events:
  "\<forall>e\<in>set evs. isSolverEvent e \<Longrightarrow>
   \<forall>e\<in>set (snd (SolveTurnstile_loop env u k i lastErr evs)). isSolverEvent e"
proof (induction env u k i lastErr evs rule: SolveTurnstile_loop.induct)
  case (1 env u k i lastErr evs)
  show ?case
  proof (cases "i < 3")
    case False
    with "1.prems" show ?thesis by (simp add: SolveTurnstile_loop.simps [of env u k i])
  next
    case True
    define evs1 where "evs1 = (if i > 0 then evs @ [EvSleep (Second * 2)] else evs)"
    define evs2 where "evs2 = evs1 @ [EvCreateTask TaskTypeTurnstileProxyLess u k]"
    have e2: "\<forall>e\<in>set evs2. isSolverEvent e"
      using "1.prems" by (auto simp add: evs1_def evs2_def isSolverEvent_def)
    show ?thesis
    proof (cases "createTask (createReply (env i))")
      case (Inl err)
      have "\<forall>e\<in>set (snd (SolveTurnstile_loop env u k (i + 1)
               (Some (''failed to create turnstile task: '' @ err)) evs2)). isSolverEvent e"
        using "1.IH"(1) [OF True evs1_def evs2_def Inl] e2 by blast
      then show ?thesis
        using True Inl
        by (simp add: SolveTurnstile_loop.simps [of env u k i] evs1_def evs2_def Let_def)
    next
      case (Inr taskID)
      obtain r evs3 where w: "waitForTaskResult (pollReplies (env i)) taskID = (r, evs3)"
        by (cases "waitForTaskResult (pollReplies (env i)) taskID")
      have e3: "\<forall>e\<in>set evs3. isSolverEvent e"
        using waitForTaskResult_events [of "pollReplies (env i)" taskID] w by simp
      show ?thesis
      proof (cases r)
        case (Inl err)
        have "\<forall>e\<in>set (snd (SolveTurnstile_loop env u k (i + 1)
               (Some (''failed to get turnstile solution: '' @ err)) (evs2 @ evs3))). isSolverEvent e"
          using "1.IH"(2) [OF True evs1_def evs2_def Inr w [symmetric] Inl] e2 e3 by auto
        then show ?thesis
          using True Inr w Inl
          by (simp add: SolveTurnstile_loop.simps [of env u k i] evs1_def evs2_def Let_def)
      next
        case (Inr token)
        then show ?thesis
          using True \<open>createTask (createReply (env i)) = Inr taskID\<close> w e2 e3
          by (auto simp add: SolveTurnstile_loop.simps [of env u k i] evs1_def evs2_def Let_def)
      qed
    qed
  qed
qed


lemma SolveTurnstile_events:
  "SolveTurnstile env u k = (r, evs) \<Longrightarrow> \<forall>e\<in>set evs. isSolverEvent e"
  using SolveTurnstile_loop_events [of "[]" env u k 0 None]
  by (simp add: SolveTurnstile_def)

lemma doRequest_noLogin_cases:
  assumes "doRequest_noLogin m ep b a w = (r, w')"
  shows "(w' = w \<and> (\<exists>err. r = Inl err))
       \<or> (credentials a \<noteq> emptyCredentials \<and> composes w m (BaseURL w @ ep) \<and>
          w' = w\<lparr>requestsSent := Suc (requestsSent w),
                 jarLoggedIn := snd (transport w (requestsSent w)),
                 events := events w @ [EvRequest m ep b]\<rparr>
          \<and> (case fst (transport w (requestsSent w)) of
                DoError err \<Rightarrow> r = Inl (ErrFailedToVisitPage @ '': '' @ err)
              | DoResponse resp \<Rightarrow>
                  r = (if StatusCode resp \<noteq> 200
                       then Inl (ErrNon200StatusCode @ '': '' @ decimal (StatusCode resp))
                       else if \<not> bodyReads resp then Inl ErrFailedToReadResponse
                       else Inr resp)))"
proof (cases "credentials a = emptyCredentials")
  case True
  with assms show ?thesis by (auto simp add: doRequest_noLogin_def)
next
  case False
  with assms have "sendRequest m ep b w = (r, w')" by (simp add: doRequest_noLogin_def)
  from sendRequest_cases [OF this] False show ?thesis by blast
qed

lemma loginSolveCaptcha_cases:
  assumes "loginSolveCaptcha a f d w = (r, w')"
  shows "(w' = w \<and> r = Inr d \<and> (capsolverClient a = None \<or> TurnstileSiteKey f = []))
       \<or> (\<exists>evs. w' = w\<lparr>solveCalls := Suc (solveCalls w), events := events w @ evs\<rparr>
            \<and> (\<forall>e\<in>set evs. isSolverEvent e))"
proof (cases "capsolverClient a \<noteq> None \<and> TurnstileSiteKey f \<noteq> []")
  case False
  with assms show ?thesis by (auto simp add: loginSolveCaptcha_def split: if_splits)
next
  case True
  obtain lastErr tok evs where s:
    "SolveTurnstile (solves w (solveCalls w)) (BaseURL w) (TurnstileSiteKey f) = ((lastErr, tok), evs)"
    by (metis surj_pair)
  from SolveTurnstile_events [OF s] have "\<forall>e\<in>set evs. isSolverEvent e" .
  moreover have "w' = w\<lparr>solveCalls := Suc (solveCalls w), events := events w @ evs\<rparr>"
    using assms True s by (auto simp add: loginSolveCaptcha_def Let_def split: option.splits)
  ultimately show ?thesis by blast
qed

lemma loginClassify_cases:
  assumes "loginClassify a r w = (res, a', w')"
  shows "(res = Some ErrInvalidCredentials \<and> URLPath r = loginRequestEndpoint \<and> a' = a \<and> w' = w)
       \<or> (res = Some ErrFailedLogin \<and> URLPath r \<noteq> loginRequestEndpoint
            \<and> \<not> (IsLoggedIn (Body r) \<and> jarLoggedIn w) \<and> a' = a \<and> w' = w)
       \<or> (res = None \<and> URLPath r \<noteq> loginRequestEndpoint \<and> IsLoggedIn (Body r) \<and> jarLoggedIn w
            \<and> a' = a\<lparr>didLogin := True, lastLoginSuccess := clock w (clockReads w)\<rparr>
            \<and> w' = w\<lparr>clockReads := Suc (clockReads w)\<rparr>)"
  using assms
  by (auto simp add: loginClassify_def time_Now_def split: if_splits)


lemma loginAttempt_cases:
  assumes la: "loginAttempt a w = (res, a', w')"
  obtains
    (unsent) err where
      "res = Some err" "a' = a\<lparr>lastAttempt := clock w (clockReads w)\<rparr>"
      "w' = w\<lparr>clockReads := Suc (clockReads w)\<rparr>"
  | (fetched) err where
      "res = Some err" "a' = a\<lparr>lastAttempt := clock w (clockReads w)\<rparr>"
      "w' = w\<lparr>clockReads := Suc (clockReads w),
              requestsSent := Suc (requestsSent w),
              jarLoggedIn := snd (transport w (requestsSent w)),
              events := events w @ [loginPageEvent]\<rparr>"
      "\<forall>resp f. fst (transport w (requestsSent w)) = DoResponse resp \<and> StatusCode resp = 200
          \<and> bodyReads resp \<and> ParseLoginForm (Body resp) = Inr f
         \<longrightarrow> VerificationToken f = [] \<and> err = ErrFailedLogin @ '': '' @ ErrFailedToParsePage"
  | (unsubmitted) err resp f evs where
      "res = Some err" "a' = a\<lparr>lastAttempt := clock w (clockReads w)\<rparr>"
      "fst (transport w (requestsSent w)) = DoResponse resp" "StatusCode resp = 200"
      "bodyReads resp" "ParseLoginForm (Body resp) = Inr f" "VerificationToken f \<noteq> []"
      "events w' = events w @ [loginPageEvent] @ evs" "\<forall>e\<in>set evs. isSolverEvent e"
      "requestsSent w' = Suc (requestsSent w)"
  | (submitted) resp f d evs w4 where
      "fst (transport w (requestsSent w)) = DoResponse resp" "StatusCode resp = 200"
      "bodyReads resp" "ParseLoginForm (Body resp) = Inr f" "VerificationToken f \<noteq> []"
      "events w4 = events w @ [loginPageEvent] @ evs
                   @ [EvRequest MethodPost loginRequestEndpoint (Some d)]"
      "\<forall>e\<in>set evs. isSolverEvent e"
      "requestsSent w4 = Suc (Suc (requestsSent w))"
      "jarLoggedIn w4 = snd (transport w (Suc (requestsSent w)))"
      "clockReads w4 = Suc (clockReads w)" "clock w4 = clock w" "transport w4 = transport w"
      "case fst (transport w (Suc (requestsSent w))) of
         DoError e \<Rightarrow> res = Some (ErrFailedLogin @ '': '' @ ErrFailedToVisitPage @ '': '' @ e)
                       \<and> a' = a\<lparr>lastAttempt := clock w (clockReads w)\<rparr> \<and> w' = w4
       | DoResponse r2 \<Rightarrow>
           if StatusCode r2 = 200 \<and> bodyReads r2
           then loginClassify (a\<lparr>lastAttempt := clock w (clockReads w)\<rparr>) r2 w4 = (res, a', w')
           else (\<exists>e. res = Some e) \<and> a' = a\<lparr>lastAttempt := clock w (clockReads w)\<rparr> \<and> w' = w4"
proof -
  define a1 where "a1 = a\<lparr>lastAttempt := clock w (clockReads w)\<rparr>"
  define w1 where "w1 = w\<lparr>clockReads := Suc (clockReads w)\<rparr>"
  obtain r2 w2 where g: "doRequest_noLogin MethodGet ''/'' None a1 w1 = (r2, w2)"
    by (cases "doRequest_noLogin MethodGet ''/'' None a1 w1")
  from la g [unfolded a1_def w1_def] have s1:
    "(case r2 of
        Inl err \<Rightarrow> (Some (ErrFailedLogin @ '': '' @ err), a1, w2)
      | Inr resp \<Rightarrow>
          (case ParseLoginForm (Body resp) of
             Inl err \<Rightarrow> (Some (ErrFailedLogin @ '': '' @ ErrFailedToParsePage), a1, w2)
           | Inr loginForm \<Rightarrow>
               if VerificationToken loginForm = [] then
                 (Some (ErrFailedLogin @ '': '' @ ErrFailedToParsePage), a1, w2)
               else
                 (case loginSolveCaptcha a1 loginForm (loginRequestData a1 loginForm) w2 of
                    (Inl err, w3) \<Rightarrow> (Some err, a1, w3)
                  | (Inr d, w3) \<Rightarrow>
                      (case doRequest_noLogin MethodPost loginRequestEndpoint (Some d) a1 w3 of
                         (Inl err, w4) \<Rightarrow> (Some (ErrFailedLogin @ '': '' @ err), a1, w4)
                       | (Inr loginResponse, w4) \<Rightarrow> loginClassify a1 loginResponse w4)))) = (res, a', w')"
    unfolding a1_def w1_def by (simp add: loginAttempt_def time_Now_def Let_def)
  from doRequest_noLogin_cases [OF g]
  consider (nosend) "w2 = w1" "\<exists>err. r2 = Inl err"
    | (sent) "w2 = w1\<lparr>requestsSent := Suc (requestsSent w1),
                 jarLoggedIn := snd (transport w1 (requestsSent w1)),
                 events := events w1 @ [EvRequest MethodGet ''/'' None]\<rparr>"
        "case fst (transport w1 (requestsSent w1)) of
                DoError err \<Rightarrow> r2 = Inl (ErrFailedToVisitPage @ '': '' @ err)
              | DoResponse resp \<Rightarrow>
                  r2 = (if StatusCode resp \<noteq> 200
                       then Inl (ErrNon200StatusCode @ '': '' @ decimal (StatusCode resp))
                       else if \<not> bodyReads resp then Inl ErrFailedToReadResponse
                       else Inr resp)"
    by blast
  then show ?thesis
  proof cases
    case nosend
    then obtain err where "r2 = Inl err" by blast
    with s1 nosend show ?thesis
      by (intro unsent [of "ErrFailedLogin @ '': '' @ err"]) (auto simp add: a1_def w1_def)
  next
    case sent
    have w2: "w2 = w\<lparr>clockReads := Suc (clockReads w),
              requestsSent := Suc (requestsSent w),
              jarLoggedIn := snd (transport w (requestsSent w)),
              events := events w @ [loginPageEvent]\<rparr>"
      using sent(1) by (simp add: w1_def loginPageEvent_def)
    show ?thesis
    proof (cases r2)
      case (Inl err)
      have "\<forall>resp f. fst (transport w (requestsSent w)) = DoResponse resp \<and> StatusCode resp = 200
          \<and> bodyReads resp \<and> ParseLoginForm (Body resp) = Inr f \<longrightarrow> False"
        using sent(2) Inl by (auto simp add: w1_def split: http_reply.splits if_splits)
      with s1 Inl w2 show ?thesis
        by (intro fetched [of "ErrFailedLogin @ '': '' @ err"]) (auto simp add: a1_def)
    next
      case (Inr resp)
      have resp: "fst (transport w (requestsSent w)) = DoResponse resp" "StatusCode resp = 200"
        "bodyReads resp"
        using sent(2) Inr by (auto simp add: w1_def split: http_reply.splits if_splits)
      show ?thesis
      proof (cases "ParseLoginForm (Body resp)")
        case (Inl perr)
        with s1 Inr w2 resp show ?thesis
          by (intro fetched [of "ErrFailedLogin @ '': '' @ ErrFailedToParsePage"])
             (auto simp add: a1_def)
      next
        case f: (Inr f)
        show ?thesis
        proof (cases "VerificationToken f = []")
          case True
          with s1 Inr f w2 resp show ?thesis
            by (intro fetched [of "ErrFailedLogin @ '': '' @ ErrFailedToParsePage"])
               (auto simp add: a1_def)
        next
          case tok: False
          obtain r3 w3 where c: "loginSolveCaptcha a1 f (loginRequestData a1 f) w2 = (r3, w3)"
            by (cases "loginSolveCaptcha a1 f (loginRequestData a1 f) w2")
          from loginSolveCaptcha_cases [OF c] obtain evs where
            w3: "w3 = w2 \<and> evs = [] \<or> w3 = w2\<lparr>solveCalls := Suc (solveCalls w2), events := events w2 @ evs\<rparr>"
            and evs: "\<forall>e\<in>set evs. isSolverEvent e"
            by fastforce
          have w3e: "events w3 = events w @ [loginPageEvent] @ evs"
            "requestsSent w3 = Suc (requestsSent w)" "clockReads w3 = Suc (clockReads w)"
            "clock w3 = clock w" "transport w3 = transport w"
            "jarLoggedIn w3 = snd (transport w (requestsSent w))"
            using w3 w2 by auto
          show ?thesis
          proof (cases r3)
            case (Inl err)
            with s1 Inr f tok c have "res = Some err" "a' = a1" "w' = w3" by auto
            with w3e evs resp f tok show ?thesis
              by (intro unsubmitted [of err resp f evs]) (auto simp add: a1_def)
          next
            case d: (Inr d)
            obtain r4 w4 where p:
              "doRequest_noLogin MethodPost loginRequestEndpoint (Some d) a1 w3 = (r4, w4)"
              by (cases "doRequest_noLogin MethodPost loginRequestEndpoint (Some d) a1 w3")
            from s1 Inr f tok c d p have s4:
              "(case r4 of Inl err \<Rightarrow> (Some (ErrFailedLogin @ '': '' @ err), a1, w4)
                 | Inr loginResponse \<Rightarrow> loginClassify a1 loginResponse w4) = (res, a', w')"
              by simp
            from doRequest_noLogin_cases [OF p]
            consider (nopost) "w4 = w3" "\<exists>err. r4 = Inl err"
              | (post) "w4 = w3\<lparr>requestsSent := Suc (requestsSent w3),
                 jarLoggedIn := snd (transport w3 (requestsSent w3)),
                 events := events w3 @ [EvRequest MethodPost loginRequestEndpoint (Some d)]\<rparr>"
               "case fst (transport w3 (requestsSent w3)) of
                DoError err \<Rightarrow> r4 = Inl (ErrFailedToVisitPage @ '': '' @ err)
              | DoResponse resp \<Rightarrow>
                  r4 = (if StatusCode resp \<noteq> 200
                       then Inl (ErrNon200StatusCode @ '': '' @ decimal (StatusCode resp))
                       else if \<not> bodyReads resp then Inl ErrFailedToReadResponse
                       else Inr resp)"
              by blast
            then show ?thesis
            proof cases
              case nopost
              then obtain err where "r4 = Inl err" by blast
              with s4 nopost have "res = Some (ErrFailedLogin @ '': '' @ err)" "a' = a1" "w' = w3"
                by auto
              with w3e evs resp f tok show ?thesis
                by (intro unsubmitted [of "ErrFailedLogin @ '': '' @ err" resp f evs])
                   (auto simp add: a1_def)
            next
              case post
              have w4e: "events w4 = events w @ [loginPageEvent] @ evs
                   @ [EvRequest MethodPost loginRequestEndpoint (Some d)]"
                "requestsSent w4 = Suc (Suc (requestsSent w))"
                "jarLoggedIn w4 = snd (transport w (Suc (requestsSent w)))"
                "clockReads w4 = Suc (clockReads w)" "clock w4 = clock w" "transport w4 = transport w"
                using post(1) w3e by auto
              have "case fst (transport w (Suc (requestsSent w))) of
                  DoError e \<Rightarrow> res = Some (ErrFailedLogin @ '': '' @ ErrFailedToVisitPage @ '': '' @ e)
                       \<and> a' = a1 \<and> w' = w4
                | DoResponse r2 \<Rightarrow>
                   if StatusCode r2 = 200 \<and> bodyReads r2
                   then loginClassify a1 r2 w4 = (res, a', w')
                   else (\<exists>e. res = Some e) \<and> a' = a1 \<and> w' = w4"
                using post(2) s4 w3e
                by (auto split: http_reply.splits if_splits)
              from this [unfolded a1_def] show ?thesis
                by (rule submitted [OF resp f tok w4e(1) evs w4e(2) w4e(3) w4e(4) w4e(5) w4e(6)])
            qed
          qed
        qed
      qed
    qed
  qed
qed


lemma login_cases:
  assumes "login force a w = (res, a', w')"
  obtains
    (reuse) "\<not> force" "reuseApplies a w" "res = None" "a' = a\<lparr>didLogin := True\<rparr>"
      "w' = w\<lparr>clockReads := Suc (clockReads w)\<rparr>"
  | (throttled) n where "\<not> force" "\<not> reuseApplies a w" "sinceLastAttempt a w < Minute * 2"
      "res = (if didLogin a then None else Some ErrLoginThrottled)" "a' = a"
      "w' = w\<lparr>clockReads := n\<rparr>"
  | (attempt) n where "force \<or> \<not> reuseApplies a w \<and> \<not> sinceLastAttempt a w < Minute * 2"
      "clockReads w \<le> n" "loginAttempt a (w\<lparr>clockReads := n\<rparr>) = (res, a', w')"
proof (cases force)
  case True
  with assms have "loginAttempt a (w\<lparr>clockReads := clockReads w\<rparr>) = (res, a', w')"
    by (simp add: login_def)
  with True show ?thesis by (intro attempt [of "clockReads w"]) auto
next
  case nf: False
  show ?thesis
  proof (cases "reuseApplies a w")
    case True
    with nf assms show ?thesis
      by (intro reuse) (auto simp add: login_def reuseApplies_def time_Now_def)
  next
    case nr: False
    show ?thesis
    proof (cases "jarLoggedIn w")
      case True
      show ?thesis
      proof (cases "sinceLastAttempt a w < Minute * 2")
        case t: True
        with nf nr True assms show ?thesis
          by (intro throttled [of "Suc (Suc (clockReads w))"])
             (auto simp add: login_def reuseApplies_def sinceLastAttempt_def time_Now_def split: if_splits)
      next
        case t: False
        with nf nr True assms show ?thesis
          by (intro attempt [of "Suc (Suc (clockReads w))"])
             (auto simp add: login_def reuseApplies_def sinceLastAttempt_def time_Now_def split: if_splits)
      qed
    next
      case False
      show ?thesis
      proof (cases "sinceLastAttempt a w < Minute * 2")
        case t: True
        with nf nr False assms show ?thesis
          by (intro throttled [of "Suc (clockReads w)"])
             (auto simp add: login_def reuseApplies_def sinceLastAttempt_def time_Now_def split: if_splits)
      next
        case t: False
        with nf nr False assms show ?thesis
          by (intro attempt [of "Suc (clockReads w)"])
             (auto simp add: login_def reuseApplies_def sinceLastAttempt_def time_Now_def split: if_splits)
      qed
    qed
  qed
qed

lemma loginPageEvent_not_submission: "\<not> isSubmission loginPageEvent"
  by (simp add: isSubmission_def loginPageEvent_def MethodGet_def MethodPost_def)

lemma issued_attempt:
  "events w' = events w @ evs \<Longrightarrow> issued w w' = evs"
  by (simp add: issued_def)



lemmas login_unfold = login_def loginAttempt_def time_Now_def doRequest_noLogin_def
  sendRequest_def httpClient_Do_def loginSolveCaptcha_def loginClassify_def
  ParseLoginForm_def ParseLoginFormFromDom_def AttrOr_def loginRequestData_def
  emptyCredentials_def newClientValue_def okResponse_def

lemma login_tokenOnly:
  "login True exClient (exWorld tokenOnlyPage) =
     (None,
      exClient\<lparr>lastAttempt := Hour, didLogin := True, lastLoginSuccess := Hour\<rparr>,
      (exWorld tokenOnlyPage)
        \<lparr>clockReads := 2, requestsSent := 2, jarLoggedIn := True,
         events := [EvRequest ''GET'' ''/'' None,
                    EvRequest ''POST'' ''/''
                      (Some [(''__RequestVerificationToken'', ''tok''), (''_UserName'', ''u''),
                             (''_Password'', ''p''), (''_QString'', []), (''honeypot'', [])])]\<rparr>)"
  by (simp add: login_unfold exClient_def exWorld_def tokenOnlyPage_def homePage_def
        verificationTokenName_def loginRequestEndpoint_def MethodGet_def MethodPost_def
        numeral_2_eq_2)


lemma throttled_login_example:
  "login False (exClient\<lparr>lastAttempt := Hour\<rparr>) (exWorld noTokenPage) =
     (Some ErrLoginThrottled, exClient\<lparr>lastAttempt := Hour\<rparr>,
      (exWorld noTokenPage)\<lparr>clockReads := 1\<rparr>)"
  by (simp add: login_def time_Now_def exWorld_def time_Sub_def Minute_def Second_def
        minDuration_def maxDuration_def exClient_def newClientValue_def)




text \<open>
  Claim C2. When \<open>login\<close> has submitted the form and the submission is answered by a
  response that \<open>doRequest\<close> returns (status 200, readable body): a final URL path equal to
  the login path gives the invalid-credentials error; another path with the logged-in
  signal of both the body and the cookie jar gives success; another path with one of the
  two signals missing gives the login-failed error, which is not the invalid-credentials
  error.
\<close>

theorem login_classifies_submission:
  assumes "login force a w = (res, a', w')"
    and "\<exists>e\<in>set (issued w w'). isSubmission e"
    and "transport w (Suc (requestsSent w)) = (DoResponse resp, jar)"
    and "StatusCode resp = 200" and "bodyReads resp"
  shows "(URLPath resp = loginRequestEndpoint \<longrightarrow> res = Some ErrInvalidCredentials)
       \<and> (URLPath resp \<noteq> loginRequestEndpoint \<and> IsLoggedIn (Body resp) \<and> jar \<longrightarrow> res = None)
       \<and> (URLPath resp \<noteq> loginRequestEndpoint \<and> \<not> (IsLoggedIn (Body resp) \<and> jar)
            \<longrightarrow> res = Some ErrFailedLogin)
       \<and> ErrFailedLogin \<noteq> ErrInvalidCredentials"
  using assms(1)
proof (cases rule: login_cases)
  case reuse
  with assms(2) show ?thesis by (simp add: issued_def)
next
  case (throttled n)
  with assms(2) show ?thesis by (simp add: issued_def)
next
  case (attempt n)
  have ne: "ErrFailedLogin \<noteq> ErrInvalidCredentials"
    by (simp add: ErrFailedLogin_def ErrInvalidCredentials_def)
  from attempt(3) show ?thesis
  proof (cases rule: loginAttempt_cases)
    case (unsent err)
    with assms(2) show ?thesis by (simp add: issued_def)
  next
    case (fetched err)
    with assms(2) loginPageEvent_not_submission show ?thesis by (simp add: issued_def)
  next
    case (unsubmitted err r f evs)
    with assms(2) loginPageEvent_not_submission solver_not_submission [of evs]
    show ?thesis by (auto simp add: issued_def)
  next
    case (submitted r f d evs w4)
    from submitted(13) assms(3,4,5)
    have "loginClassify (a\<lparr>lastAttempt := clock w n\<rparr>) resp w4 = (res, a', w')"
      by simp
    from loginClassify_cases [OF this] submitted(9) assms(3) ne show ?thesis
      by auto
  qed
qed

text \<open>The theorem at a submission answered by the home page of a logged-in session.\<close>

theorem login_classifies_submission_witness:
  "(\<exists>e\<in>set (issued (exWorld tokenOnlyPage) (snd (snd (login True exClient (exWorld tokenOnlyPage))))).
      isSubmission e)
   \<and> fst (login True exClient (exWorld tokenOnlyPage)) = None"
proof -
  let ?w = "exWorld tokenOnlyPage"
  obtain res a' w' where l: "login True exClient ?w = (res, a', w')"
    by (cases "login True exClient ?w")
  from l [unfolded login_tokenOnly]
  have "events w' = [EvRequest ''GET'' ''/'' None,
                    EvRequest ''POST'' ''/''
                      (Some [(''__RequestVerificationToken'', ''tok''), (''_UserName'', ''u''),
                             (''_Password'', ''p''), (''_QString'', []), (''honeypot'', [])])]"
    by auto
  then have i: "\<exists>e\<in>set (issued ?w w'). isSubmission e"
    by (simp add: issued_def exWorld_def isSubmission_def MethodPost_def loginRequestEndpoint_def)
  have r: "transport ?w (Suc (requestsSent ?w)) = (DoResponse (okResponse ''/Home'' homePage), True)"
    by (simp add: exWorld_def)
  from login_classifies_submission [OF l i r] i l show ?thesis
    by (simp add: okResponse_def homePage_def loginRequestEndpoint_def)
qed

text \<open>
  Claim C3. In a call with \<open>force = false\<close> in which the session cannot be reused and the
  last attempt is less than two minutes old: when no login has succeeded, the call ends
  with the error "login throttled"; when one has, it ends without an error; either way
  nothing is sent, no solver is called, and the client is unchanged.
\<close>

theorem login_throttle:
  assumes "\<not> force" "\<not> reuseApplies a w" "sinceLastAttempt a w < 2 * Minute"
    and "login force a w = (res, a', w')"
  shows "(\<not> didLogin a \<longrightarrow> res = Some ErrLoginThrottled)
       \<and> (didLogin a \<longrightarrow> res = None)
       \<and> a' = a \<and> requestsSent w' = requestsSent w \<and> solveCalls w' = solveCalls w
       \<and> events w' = events w"
  using assms(4)
proof (cases rule: login_cases)
  case reuse
  with assms show ?thesis by simp
next
  case (throttled n)
  then show ?thesis by simp
next
  case (attempt n)
  with assms show ?thesis by simp
qed

text \<open>The theorem at a client that has just made an attempt and has never logged in.\<close>

theorem login_throttle_witness:
  "\<not> reuseApplies (exClient\<lparr>lastAttempt := Hour\<rparr>) (exWorld noTokenPage)
   \<and> sinceLastAttempt (exClient\<lparr>lastAttempt := Hour\<rparr>) (exWorld noTokenPage) < 2 * Minute
   \<and> fst (login False (exClient\<lparr>lastAttempt := Hour\<rparr>) (exWorld noTokenPage)) = Some ErrLoginThrottled"
proof -
  let ?a = "exClient\<lparr>lastAttempt := Hour\<rparr>" and ?w = "exWorld noTokenPage"
  obtain res a' w' where l: "login False ?a ?w = (res, a', w')"
    by (cases "login False ?a ?w")
  have h1: "\<not> reuseApplies ?a ?w"
    by (simp add: reuseApplies_def exWorld_def)
  have h2: "sinceLastAttempt ?a ?w < 2 * Minute"
    by (simp add: sinceLastAttempt_def exWorld_def time_Sub_def Minute_def Second_def
          minDuration_def maxDuration_def)
  have "\<not> didLogin ?a" by (simp add: exClient_def newClientValue_def)
  with login_throttle [OF _ h1 h2 l] h1 h2 l show ?thesis by simp
qed



lemma time_Sub_before_ttl:
  assumes "minDuration \<le> t"
  shows "time_Sub (c + t - Second) c \<le> t"
  using assms by (simp add: time_Sub_def Let_def Second_def)

lemma cleanup_expired_set:
  "set (cleanup_expired now t m order expired) =
     set expired \<union> {k \<in> set order. \<exists>s. m k = Some s \<and> time_Sub now (createdAt s) > t}"
  by (induction order arbitrary: expired) (auto split: option.splits)

lemma cleanup_delete_lookup:
  "cleanup_delete ks m k = (if k \<in> set ks then None else m k)"
  by (induction ks arbitrary: m) auto

lemma cleanup_lookup:
  assumes "set order = dom (sessions sc)"
  shows "sessions (fst (cleanup order sc w)) k =
           (case sessions sc k of
              None \<Rightarrow> None
            | Some s \<Rightarrow>
                if time_Sub (clock w (clockReads w)) (createdAt s) > ttl sc then None
                else Some s)"
proof (cases "sessions sc k")
  case None
  then show ?thesis
    by (simp add: cleanup_def time_Now_def logEvents_def Let_def cleanup_delete_lookup)
next
  case (Some s)
  then have "k \<in> set order" using assms by auto
  with Some show ?thesis
    by (simp add: cleanup_def time_Now_def logEvents_def Let_def cleanup_delete_lookup
          cleanup_expired_set)
qed

text \<open>
  Claim C4. For an entry cached under the key of the credentials, in a cache whose TTL is
  an int64 duration: when the age \<open>Get\<close> computes exceeds the TTL, \<open>Get\<close> returns nil and
  the entry is gone from the map; when it does not, \<open>Get\<close> returns the cached client, and
  so it does one second before the TTL has elapsed. After the sweep, the map holds
  exactly the entries it held whose age does not exceed the TTL, whatever the order in
  which the sweep ranges over the keys.
\<close>

theorem Get_and_cleanup_respect_ttl:
  assumes "sessions sc (makeKey username password) = Some s" and "minDuration \<le> ttl sc"
  shows "(time_Sub (clock w (clockReads w)) (createdAt s) > ttl sc \<longrightarrow>
            fst (Get username password sc w) = None
            \<and> sessions (fst (snd (Get username password sc w))) (makeKey username password) = None)
       \<and> (time_Sub (clock w (clockReads w)) (createdAt s) \<le> ttl sc \<longrightarrow>
            fst (Get username password sc w) = Some (client s))
       \<and> (clock w (clockReads w) = createdAt s + ttl sc - Second \<longrightarrow>
            fst (Get username password sc w) = Some (client s))
       \<and> (set order = dom (sessions sc) \<longrightarrow>
            (\<forall>k. sessions (fst (cleanup order sc w)) k =
               (case sessions sc k of
                  None \<Rightarrow> None
                | Some s' \<Rightarrow>
                    if time_Sub (clock w (clockReads w)) (createdAt s') > ttl sc then None
                    else Some s')))"
proof -
  have expired: "time_Sub (clock w (clockReads w)) (createdAt s) > ttl sc \<Longrightarrow>
      fst (Get username password sc w) = None
      \<and> sessions (fst (snd (Get username password sc w))) (makeKey username password) = None"
    using assms(1) by (simp add: Get_def Delete_def time_Now_def logEvents_def Let_def)
  have fresh: "time_Sub (clock w (clockReads w)) (createdAt s) \<le> ttl sc \<Longrightarrow>
      fst (Get username password sc w) = Some (client s)"
    using assms(1) by (simp add: Get_def time_Now_def logEvents_def Let_def)
  have before: "clock w (clockReads w) = createdAt s + ttl sc - Second \<Longrightarrow>
      fst (Get username password sc w) = Some (client s)"
    using fresh time_Sub_before_ttl [OF assms(2), of "createdAt s"] by simp
  from expired fresh before cleanup_lookup [of order sc w] show ?thesis by blast
qed

text \<open>
  The theorem at an entry created at one hour, with the default TTL of 30 minutes: read
  one second before the TTL has elapsed it is returned, read one second after it is not,
  and the sweep run then removes it.
\<close>

theorem Get_and_cleanup_respect_ttl_witness:
  "fst (Get ''u'' ''p'' exCache (exWorldAt (Hour + DefaultSessionTTL - Second))) = Some 7
   \<and> fst (Get ''u'' ''p'' exCache (exWorldAt (Hour + DefaultSessionTTL + Second))) = None
   \<and> sessions (fst (cleanup [''u:p''] exCache (exWorldAt (Hour + DefaultSessionTTL + Second))))
        ''u:p'' = None"
proof -
  have k: "sessions exCache (makeKey ''u'' ''p'')
             = Some \<lparr>client = 7, createdAt = Hour, lastUsed = Hour\<rparr>"
    by (simp add: exCache_def makeKey_def)
  have m: "minDuration \<le> ttl exCache"
    by (simp add: exCache_def DefaultSessionTTL_def Minute_def Second_def minDuration_def)
  have d: "set [''u:p''] = dom (sessions exCache)"
    by (simp add: exCache_def)
  have c1: "clock (exWorldAt (Hour + DefaultSessionTTL - Second))
              (clockReads (exWorldAt (Hour + DefaultSessionTTL - Second)))
            = createdAt \<lparr>client = 7::nat, createdAt = Hour, lastUsed = Hour\<rparr> + ttl exCache - Second"
    by (simp add: exWorldAt_def exCache_def)
  have c2: "time_Sub (clock (exWorldAt (Hour + DefaultSessionTTL + Second))
                       (clockReads (exWorldAt (Hour + DefaultSessionTTL + Second))))
              (createdAt \<lparr>client = 7::nat, createdAt = Hour, lastUsed = Hour\<rparr>) > ttl exCache"
    by (simp add: exWorldAt_def exCache_def time_Sub_def DefaultSessionTTL_def Hour_def
          Minute_def Second_def minDuration_def maxDuration_def)
  from Get_and_cleanup_respect_ttl [OF k m, of "exWorldAt (Hour + DefaultSessionTTL - Second)"] c1
  have a: "fst (Get ''u'' ''p'' exCache (exWorldAt (Hour + DefaultSessionTTL - Second))) = Some 7"
    by simp
  from Get_and_cleanup_respect_ttl
         [OF k m, of "exWorldAt (Hour + DefaultSessionTTL + Second)" "[''u:p'']"] c2 d
  have b: "fst (Get ''u'' ''p'' exCache (exWorldAt (Hour + DefaultSessionTTL + Second))) = None"
    and c: "sessions (fst (cleanup [''u:p''] exCache
                           (exWorldAt (Hour + DefaultSessionTTL + Second)))) ''u:p'' = None"
    by (simp_all add: exCache_def)
  from a b c show ?thesis by simp
qed

lemma takeWhile_upto:
  "c \<notin> set u \<Longrightarrow> takeWhile (\<lambda>x. x \<noteq> c) (u @ c # p) = u"
  by (induction u) auto

lemma makeKey_inj_no_colon:
  assumes "CHR '':'' \<notin> set u1" and "CHR '':'' \<notin> set u2"
    and "makeKey u1 p1 = makeKey u2 p2"
  shows "u1 = u2 \<and> p1 = p2"
proof -
  have "takeWhile (\<lambda>c. c \<noteq> CHR '':'') (makeKey u1 p1) = u1"
    using assms(1) by (simp add: makeKey_def takeWhile_upto)
  moreover have "takeWhile (\<lambda>c. c \<noteq> CHR '':'') (makeKey u2 p2) = u2"
    using assms(2) by (simp add: makeKey_def takeWhile_upto)
  ultimately have "u1 = u2" using assms(3) by simp
  with assms(3) show ?thesis by (simp add: makeKey_def)
qed

text \<open>
  Claim C7 fails on the code: the key is the user name, a colon and the password, so the
  pairs (a:b, c) and (a, b:c) have the same key, and the client stored for the first is
  what \<open>Get\<close> returns for the second.
\<close>

theorem makeKey_collision:
  "makeKey ''a:b'' ''c'' = makeKey ''a'' ''b:c''
   \<and> (''a:b'', ''c'') \<noteq> (''a'', ''b:c'')
   \<and> fst (Get ''a'' ''b:c''
            (fst (Set ''a:b'' ''c'' (7::nat) (NewSessionCache 0) (exWorldAt Hour)))
            (exWorldAt Hour)) = Some 7"
  by (simp add: makeKey_def Get_def Set_def NewSessionCache_def time_Now_def logEvents_def
        exWorldAt_def exWorld_def Let_def time_Sub_def DefaultSessionTTL_def Minute_def Second_def
        minDuration_def maxDuration_def)

lemma waitForTaskResult_loop_pending:
  "\<forall>r\<in>set polls. pending r \<Longrightarrow>
   waitForTaskResult_loop polls n = (Inl ''timeout waiting for captcha solution'', n + length polls)"
  by (induction polls arbitrary: n) (auto simp add: pending_def split: poll_reply.splits)

lemma waitForTaskResult_loop_ready:
  "\<forall>r\<in>set pre. pending r \<Longrightarrow>
   waitForTaskResult_loop (pre @ GetTaskResultResponse 0 c d ''ready'' token # post) n =
     (if token = [] then Inl ''no token in solution'' else Inr token, Suc (n + length pre))"
  by (induction pre arbitrary: n) (auto simp add: pending_def split: poll_reply.splits)

lemma SolveTurnstile_loop_3:
  "SolveTurnstile_loop env u k (Suc (Suc (Suc 0))) lastErr evs = ((lastErr, []), evs)"
  by (simp add: SolveTurnstile_loop.simps)

lemma SolveTurnstile_loop_step:
  assumes "i < 3"
  shows "SolveTurnstile_loop env u k i lastErr evs =
     (let evs2 = evs @ (if i > 0 then [EvSleep (2 * Second)] else [])
                 @ attemptEvents TaskTypeTurnstileProxyLess u k (env i)
      in case attemptResult ''turnstile'' (env i) of
           Inl err \<Rightarrow> SolveTurnstile_loop env u k (Suc i) (Some err) evs2
         | Inr token \<Rightarrow> ((None, token), evs2))"
proof (cases "createTask (createReply (env i))")
  case (Inl err)
  with assms show ?thesis
    by (subst SolveTurnstile_loop.simps [of env u k i lastErr evs])
       (simp add: attemptResult_def attemptEvents_def Let_def mult.commute)
next
  case (Inr taskID)
  obtain r evs3 where w: "waitForTaskResult (pollReplies (env i)) taskID = (r, evs3)"
    by (cases "waitForTaskResult (pollReplies (env i)) taskID")
  show ?thesis
  proof (cases r)
    case (Inl err)
    with assms Inr w show ?thesis
      by (subst SolveTurnstile_loop.simps [of env u k i lastErr evs])
         (simp add: attemptResult_def attemptEvents_def Let_def mult.commute)
  next
    case r: (Inr token)
    with assms Inr w show ?thesis
      by (subst SolveTurnstile_loop.simps [of env u k i lastErr evs])
         (simp add: attemptResult_def attemptEvents_def Let_def mult.commute)
  qed
qed

lemma SolveTurnstile_threeAttempts:
  "SolveTurnstile env u k = threeAttempts ''turnstile'' TaskTypeTurnstileProxyLess env u k"
  by (simp add: SolveTurnstile_def threeAttempts_def SolveTurnstile_loop_step
        SolveTurnstile_loop_3 Let_def numeral_2_eq_2 split: sum.splits)

lemma SolveRecaptchaV2_loop_3:
  "SolveRecaptchaV2_loop c env u k (Suc (Suc (Suc 0))) lastErr evs = ((lastErr, []), evs)"
  by (simp add: SolveRecaptchaV2_loop.simps)

lemma SolveRecaptchaV2_loop_step:
  assumes "i < 3"
  shows "SolveRecaptchaV2_loop c env u k i lastErr evs =
     (let evs2 = evs @ (if i > 0 then [EvSleep (2 * Second)] else [])
                 @ attemptEvents (if proxy c \<noteq> None then TaskTypeRecaptchaV2
                                  else TaskTypeRecaptchaV2ProxyLess) u k (env i)
      in case attemptResult ''recaptcha'' (env i) of
           Inl err \<Rightarrow> SolveRecaptchaV2_loop c env u k (Suc i) (Some err) evs2
         | Inr token \<Rightarrow> ((None, token), evs2))"
proof (cases "createTask (createReply (env i))")
  case (Inl err)
  with assms show ?thesis
    by (subst SolveRecaptchaV2_loop.simps [of c env u k i lastErr evs])
       (simp add: attemptResult_def attemptEvents_def Let_def mult.commute)
next
  case (Inr taskID)
  obtain r evs3 where w: "waitForTaskResult (pollReplies (env i)) taskID = (r, evs3)"
    by (cases "waitForTaskResult (pollReplies (env i)) taskID")
  show ?thesis
  proof (cases r)
    case (Inl err)
    with assms Inr w show ?thesis
      by (subst SolveRecaptchaV2_loop.simps [of c env u k i lastErr evs])
         (simp add: attemptResult_def attemptEvents_def Let_def mult.commute)
  next
    case r: (Inr token)
    with assms Inr w show ?thesis
      by (subst SolveRecaptchaV2_loop.simps [of c env u k i lastErr evs])
         (simp add: attemptResult_def attemptEvents_def Let_def mult.commute)
  qed
qed

lemma SolveRecaptchaV2_threeAttempts:
  "SolveRecaptchaV2 c env u k =
     threeAttempts ''recaptcha''
       (if proxy c \<noteq> None then TaskTypeRecaptchaV2 else TaskTypeRecaptchaV2ProxyLess) env u k"
  by (simp add: SolveRecaptchaV2_def threeAttempts_def SolveRecaptchaV2_loop_step
        SolveRecaptchaV2_loop_3 Let_def numeral_2_eq_2 split: sum.splits)

text \<open>
  Claim C6, with time as the code sees it: the polls of an attempt are those made on the
  ticks of the 2-second ticker that come before the 120-second timer is received. When
  every poll of an attempt leaves the task unfinished, the attempt ends with the timeout
  error when the timer is received, after a poll for each tick. A poll answered "ready"
  with an empty token ends the attempt with the error "no token in solution". A solve
  call, for Turnstile or reCAPTCHA v2, makes the attempts one after the other, at most
  three, sleeps two seconds before the second and the third, returns the token of the
  first that succeeds, and when all three fail returns the error of the third.
\<close>

theorem solve_attempts_bounded:
  "((\<forall>r\<in>set polls. pending r) \<longrightarrow>
      waitForTaskResult polls taskID =
        (Inl ''timeout waiting for captcha solution'',
         [EvNewTimer (120 * Second), EvNewTicker (2 * Second)]
         @ replicate (length polls) (EvGetTaskResult taskID)))
   \<and> ((\<forall>r\<in>set pre. pending r) \<longrightarrow>
        fst (waitForTaskResult (pre @ GetTaskResultResponse 0 code desc ''ready'' [] # post) taskID)
          = Inl ''no token in solution'')
   \<and> SolveTurnstile env websiteURL websiteKey =
        threeAttempts ''turnstile'' TaskTypeTurnstileProxyLess env websiteURL websiteKey
   \<and> SolveRecaptchaV2 c env websiteURL websiteKey =
        threeAttempts ''recaptcha''
          (if proxy c \<noteq> None then TaskTypeRecaptchaV2 else TaskTypeRecaptchaV2ProxyLess)
          env websiteURL websiteKey"
  by (simp add: waitForTaskResult_def waitForTaskResult_loop_pending waitForTaskResult_loop_ready
        SolveTurnstile_threeAttempts SolveRecaptchaV2_threeAttempts)

text \<open>
  The theorem at a call whose first attempt stays in processing until the timer, whose
  second is answered "ready" without a token, and whose third gets no task id: the error
  of the third is returned, after three attempts and two sleeps of two seconds.
\<close>

theorem solve_attempts_bounded_witness:
  "waitForTaskResult [processing, processing] ''t0'' =
     (Inl ''timeout waiting for captcha solution'',
      [EvNewTimer (120 * Second), EvNewTicker (2 * Second),
       EvGetTaskResult ''t0'', EvGetTaskResult ''t0''])
   \<and> fst (waitForTaskResult [processing, readyNoToken] ''t1'') = Inl ''no token in solution''
   \<and> SolveTurnstile exAttempts ''url'' ''key'' =
       ((Some ''failed to create turnstile task: no task ID returned'', []),
        [EvCreateTask TaskTypeTurnstileProxyLess ''url'' ''key'',
         EvNewTimer (120 * Second), EvNewTicker (2 * Second),
         EvGetTaskResult ''t0'', EvGetTaskResult ''t0'',
         EvSleep (2 * Second),
         EvCreateTask TaskTypeTurnstileProxyLess ''url'' ''key'',
         EvNewTimer (120 * Second), EvNewTicker (2 * Second),
         EvGetTaskResult ''t1'', EvGetTaskResult ''t1'',
         EvSleep (2 * Second),
         EvCreateTask TaskTypeTurnstileProxyLess ''url'' ''key''])"
proof -
  have p: "\<forall>r\<in>set [processing, processing]. pending r"
    by (simp add: pending_def processing_def)
  have q: "\<forall>r\<in>set [processing]. pending r"
    by (simp add: pending_def processing_def)
  note t = solve_attempts_bounded
             [where polls = "[processing, processing]" and taskID = "''t0''"
                and pre = "[processing]" and code = "[]" and desc = "[]" and post = "[]"
                and env = exAttempts and websiteURL = "''url''" and websiteKey = "''key''"]
  from t p have a: "waitForTaskResult [processing, processing] ''t0'' =
     (Inl ''timeout waiting for captcha solution'',
      [EvNewTimer (120 * Second), EvNewTicker (2 * Second),
       EvGetTaskResult ''t0'', EvGetTaskResult ''t0''])"
    by (simp add: numeral_2_eq_2)
  from solve_attempts_bounded
         [where pre = "[processing]" and code = "[]" and desc = "[]" and post = "[]"
            and taskID = "''t1''"] q
  have b: "fst (waitForTaskResult [processing, readyNoToken] ''t1'')
      = Inl ''no token in solution''"
    by (simp add: readyNoToken_def)
  have w1: "waitForTaskResult [processing, readyNoToken] ''t1'' =
     (Inl ''no token in solution'',
      [EvNewTimer (120 * Second), EvNewTicker (2 * Second),
       EvGetTaskResult ''t1'', EvGetTaskResult ''t1''])"
    by (simp add: waitForTaskResult_def processing_def readyNoToken_def numeral_2_eq_2)
  from t have "SolveTurnstile exAttempts ''url'' ''key'' =
      threeAttempts ''turnstile'' TaskTypeTurnstileProxyLess exAttempts ''url'' ''key''"
    by simp
  also have "\<dots> = ((Some ''failed to create turnstile task: no task ID returned'', []),
        [EvCreateTask TaskTypeTurnstileProxyLess ''url'' ''key'',
         EvNewTimer (120 * Second), EvNewTicker (2 * Second),
         EvGetTaskResult ''t0'', EvGetTaskResult ''t0'',
         EvSleep (2 * Second),
         EvCreateTask TaskTypeTurnstileProxyLess ''url'' ''key'',
         EvNewTimer (120 * Second), EvNewTicker (2 * Second),
         EvGetTaskResult ''t1'', EvGetTaskResult ''t1'',
         EvSleep (2 * Second),
         EvCreateTask TaskTypeTurnstileProxyLess ''url'' ''key''])"
    by (simp add: threeAttempts_def attemptResult_def attemptEvents_def exAttempts_def
          createTask_def a w1 Let_def)
  finally show ?thesis using a b by simp
qed

lemma doRequest_False:
  "doRequest False method endpoint body a w =
     (case doRequest_noLogin method endpoint body a w of (res, w1) \<Rightarrow> (res, a, w1))"
  by (simp add: doRequest_def doRequest_noLogin_def split: prod.splits sum.splits)





lemma ParseFloat32_20_40: "ParseFloat32 ''20.40'' = Inr (10695475 / 524288)"
  by (simp add: ParseFloat32_def roundFloat32_def roundHalfEven_def floorLog2_def bitlen.simps
        digitValue_def Let_def)

lemma ParseFloat32_40_00: "ParseFloat32 ''40.00'' = Inr 40"
  by (simp add: ParseFloat32_def roundFloat32_def roundHalfEven_def floorLog2_def bitlen.simps
        digitValue_def Let_def)

lemma ParseFloat32_50: "ParseFloat32 ''50'' = Inr 50"
  by (simp add: ParseFloat32_def roundFloat32_def roundHalfEven_def floorLog2_def bitlen.simps
        digitValue_def Let_def)

lemma ParseFloat32_49: "ParseFloat32 ''49'' = Inr 49"
  by (simp add: ParseFloat32_def roundFloat32_def roundHalfEven_def floorLog2_def bitlen.simps
        digitValue_def Let_def)

lemma newFormat_20_40:
  "FindStringSubmatch newFormatRegexp 2 ''20.40[20.40+0.00]/40.00'' =
     [''20.40[20.40+0.00]/40.00'', ''20.40'', ''40.00'']"
  by code_simp

lemma newFormat_50:
  "FindStringSubmatch newFormatRegexp 2 ''50[49+1.00]/49'' = [''50[49+1.00]/49'', ''50'', ''49'']"
  by code_simp

lemma numeric_20_40:
  "\<not> isNAValue ''20.40[20.40+0.00]/40.00'' \<and> \<not> isNonNumericValue ''20.40[20.40+0.00]/40.00''"
  by code_simp

lemma numeric_50:
  "\<not> isNAValue ''50[49+1.00]/49'' \<and> \<not> isNonNumericValue ''50[49+1.00]/49''"
  by code_simp

lemma isNAValue_NA: "isNAValue ''NA''"
  by code_simp

lemma isNonNumericValue_Not_Published: "isNonNumericValue ''Not Published''"
  by code_simp

lemma rowInternalMarks_examples:
  assumes "clean (cellText r ''Internal Asses.'') = t"
  shows "t = ''20.40[20.40+0.00]/40.00'' \<Longrightarrow>
           rowInternalMarks clean r = \<lparr>Have = 10695475 / 524288, Max' = 40\<rparr>"
    and "t = ''50[49+1.00]/49'' \<Longrightarrow> rowInternalMarks clean r = \<lparr>Have = 50, Max' = 49\<rparr>"
    and "t = ''NA'' \<Longrightarrow> rowInternalMarks clean r = emptyMarks"
    and "t = ''Not Published'' \<Longrightarrow> rowInternalMarks clean r = emptyMarks"
proof -
  show "t = ''20.40[20.40+0.00]/40.00'' \<Longrightarrow>
           rowInternalMarks clean r = \<lparr>Have = 10695475 / 524288, Max' = 40\<rparr>"
    using assms numeric_20_40
    by (simp add: rowInternalMarks_def Let_def newFormat_20_40 ParseFloat32_20_40
          ParseFloat32_40_00 del: One_nat_def)
  show "t = ''50[49+1.00]/49'' \<Longrightarrow> rowInternalMarks clean r = \<lparr>Have = 50, Max' = 49\<rparr>"
    using assms numeric_50
    by (simp add: rowInternalMarks_def Let_def newFormat_50 ParseFloat32_50 ParseFloat32_49)
  show "t = ''NA'' \<Longrightarrow> rowInternalMarks clean r = emptyMarks"
    using assms isNAValue_NA by (simp add: rowInternalMarks_def Let_def)
  show "t = ''Not Published'' \<Longrightarrow> rowInternalMarks clean r = emptyMarks"
    using assms isNonNumericValue_Not_Published by (simp add: rowInternalMarks_def Let_def)
qed

text \<open>
  Claim C5. Take a courses document that \<open>Courses\<close> accepts (readable, logged in, a
  courses page, one primary table with at least one row) and a row of it whose
  internal-marks cell has, once cleaned, the text \<open>t\<close>. Then \<open>Courses\<close> returns the courses
  without an error, one for each row, and the internal marks of the course of that row
  are: for "20.40[20.40+0.00]/40.00", Have the float32 nearest to 20.40 (which is
  10695475 / 524288) and Max 40; for "50[49+1.00]/49", Have 50 and Max 49; for "NA" and
  for "Not Published", the zero Marks.
\<close>

theorem internal_marks_formats:
  assumes "docReadable doc" and "docLoggedIn doc" and "isCoursesPage doc"
    and "primaryTableMatches doc = 1" and "primaryEntries doc \<noteq> []"
    and "i < length (primaryEntries doc @ secondaryEntries doc)"
    and "clean (cellText ((primaryEntries doc @ secondaryEntries doc) ! i) ''Internal Asses.'') = t"
  shows "\<exists>courses. Courses clean doc = Inr courses
           \<and> length courses = length (primaryEntries doc @ secondaryEntries doc)
           \<and> (t = ''20.40[20.40+0.00]/40.00'' \<longrightarrow>
                InternalMarks (courses ! i) = \<lparr>Have = 10695475 / 524288, Max' = 40\<rparr>)
           \<and> (t = ''50[49+1.00]/49'' \<longrightarrow> InternalMarks (courses ! i) = \<lparr>Have = 50, Max' = 49\<rparr>)
           \<and> (t = ''NA'' \<longrightarrow> InternalMarks (courses ! i) = \<lparr>Have = 0, Max' = 0\<rparr>)
           \<and> (t = ''Not Published'' \<longrightarrow> InternalMarks (courses ! i) = \<lparr>Have = 0, Max' = 0\<rparr>)
           \<and> roundFloat32 2040 100 = Some (10695475 / 524288)"
proof -
  let ?rows = "primaryEntries doc @ secondaryEntries doc"
  have c: "Courses clean doc = Inr (map (rowCourse clean) ?rows)"
    using assms(1-5) by (simp add: Courses_def)
  have n: "map (rowCourse clean) ?rows ! i = rowCourse clean (?rows ! i)"
    using assms(6) by (rule nth_map)
  have m: "InternalMarks (map (rowCourse clean) ?rows ! i) = rowInternalMarks clean (?rows ! i)"
    unfolding n by (simp add: rowCourse_def)
  have f: "roundFloat32 2040 100 = Some (10695475 / 524288)"
    by (simp add: roundFloat32_def roundHalfEven_def floorLog2_def bitlen.simps Let_def)
  from rowInternalMarks_examples [of clean "?rows ! i" t, OF assms(7)] c m f show ?thesis
    by (simp add: emptyMarks_def del: length_append map_append)
qed

text \<open>
  The theorem at a page with one row, for each of the four texts, with a \<open>CleanString\<close>
  that leaves them as they are.
\<close>

theorem internal_marks_formats_witness:
  "map InternalMarks (projr (Courses (\<lambda>s. s) (exCoursesDoc ''20.40[20.40+0.00]/40.00'')))
     = [\<lparr>Have = 10695475 / 524288, Max' = 40\<rparr>]
   \<and> map InternalMarks (projr (Courses (\<lambda>s. s) (exCoursesDoc ''50[49+1.00]/49'')))
     = [\<lparr>Have = 50, Max' = 49\<rparr>]
   \<and> map InternalMarks (projr (Courses (\<lambda>s. s) (exCoursesDoc ''NA''))) = [\<lparr>Have = 0, Max' = 0\<rparr>]
   \<and> map InternalMarks (projr (Courses (\<lambda>s. s) (exCoursesDoc ''Not Published'')))
     = [\<lparr>Have = 0, Max' = 0\<rparr>]"
proof -
  have one: "\<And>cs::Course list. length cs = Suc 0 \<Longrightarrow> map InternalMarks cs = [InternalMarks (cs ! 0)]"
    by (metis length_0_conv length_Suc_conv list.simps(8) list.simps(9) nth_Cons_0)
  have w: "\<And>t. \<exists>courses. Courses (\<lambda>s. s) (exCoursesDoc t) = Inr courses
           \<and> length courses = length (primaryEntries (exCoursesDoc t) @ secondaryEntries (exCoursesDoc t))
           \<and> (t = ''20.40[20.40+0.00]/40.00'' \<longrightarrow>
                InternalMarks (courses ! 0) = \<lparr>Have = 10695475 / 524288, Max' = 40\<rparr>)
           \<and> (t = ''50[49+1.00]/49'' \<longrightarrow> InternalMarks (courses ! 0) = \<lparr>Have = 50, Max' = 49\<rparr>)
           \<and> (t = ''NA'' \<longrightarrow> InternalMarks (courses ! 0) = \<lparr>Have = 0, Max' = 0\<rparr>)
           \<and> (t = ''Not Published'' \<longrightarrow> InternalMarks (courses ! 0) = \<lparr>Have = 0, Max' = 0\<rparr>)
           \<and> roundFloat32 2040 100 = Some (10695475 / 524288)"
    by (rule internal_marks_formats)
       (simp_all add: exCoursesDoc_def exRow_def isCoursesPage_def)
  have l: "\<And>t. length (primaryEntries (exCoursesDoc t) @ secondaryEntries (exCoursesDoc t)) = Suc 0"
    by (simp add: exCoursesDoc_def)
  from w [of "''20.40[20.40+0.00]/40.00''"] l one have a:
    "map InternalMarks (projr (Courses (\<lambda>s. s) (exCoursesDoc ''20.40[20.40+0.00]/40.00'')))
     = [\<lparr>Have = 10695475 / 524288, Max' = 40\<rparr>]"
    by auto
  from w [of "''50[49+1.00]/49''"] l one have b:
    "map InternalMarks (projr (Courses (\<lambda>s. s) (exCoursesDoc ''50[49+1.00]/49'')))
     = [\<lparr>Have = 50, Max' = 49\<rparr>]"
    by auto
  from w [of "''NA''"] l one have c:
    "map InternalMarks (projr (Courses (\<lambda>s. s) (exCoursesDoc ''NA''))) = [\<lparr>Have = 0, Max' = 0\<rparr>]"
    by auto
  from w [of "''Not Published''"] l one have d:
    "map InternalMarks (projr (Courses (\<lambda>s. s) (exCoursesDoc ''Not Published'')))
     = [\<lparr>Have = 0, Max' = 0\<rparr>]"
    by auto
  from a b c d show ?thesis by simp
qed

lemma login_events:
  assumes "login force a w = (res, a', w')"
  shows "\<exists>evs. events w' = events w @ evs \<and> (\<forall>e\<in>set evs. isRequest e \<or> isSolverEvent e)"
  using assms
proof (cases rule: login_cases)
  case reuse
  then show ?thesis by simp
next
  case (throttled n)
  then show ?thesis by simp
next
  case (attempt n)
  have lp: "isRequest loginPageEvent" by (simp add: isRequest_def loginPageEvent_def)
  from attempt(3) show ?thesis
  proof (cases rule: loginAttempt_cases)
    case (unsent err)
    then show ?thesis by simp
  next
    case (fetched err)
    with lp show ?thesis by simp
  next
    case (unsubmitted err resp f evs)
    with lp show ?thesis by simp
  next
    case (submitted resp f d evs w4)
    have "events w' = events w4"
    proof (cases "fst (transport (w\<lparr>clockReads := n\<rparr>) (Suc (requestsSent (w\<lparr>clockReads := n\<rparr>))))")
      case (DoError e)
      with submitted(13) show ?thesis by simp
    next
      case (DoResponse r2)
      show ?thesis
      proof (cases "StatusCode r2 = 200 \<and> bodyReads r2")
        case True
        with submitted(13) DoResponse
        have "loginClassify (a\<lparr>lastAttempt := clock (w\<lparr>clockReads := n\<rparr>) (clockReads (w\<lparr>clockReads := n\<rparr>))\<rparr>) r2 w4
                = (res, a', w')"
          by simp
        from loginClassify_cases [OF this] show ?thesis by auto
      next
        case False
        with submitted(13) DoResponse show ?thesis by auto
      qed
    qed
    moreover have "isRequest (EvRequest MethodPost loginRequestEndpoint (Some d))"
      by (simp add: isRequest_def)
    ultimately show ?thesis using submitted(6,7) lp by simp
  qed
qed

lemma applyOptions_events:
  "applyOptions opts c w = (err, c', w') \<Longrightarrow> events w' = events w"
proof (induction opts arbitrary: c w)
  case Nil
  then show ?case by simp
next
  case (Cons opt opts)
  obtain e1 c1 w1 where o: "applyOption opt c w = (e1, c1, w1)"
    by (cases "applyOption opt c w")
  then have e: "events w1 = events w"
    by (auto simp add: applyOption_def split: ClientOption.splits option.splits if_splits)
  show ?case
  proof (cases e1)
    case None
    with Cons.prems o have "applyOptions opts c1 w1 = (err, c', w')" by simp
    from Cons.IH [OF this] e show ?thesis by simp
  next
    case (Some x)
    with Cons.prems o e show ?thesis by auto
  qed
qed

lemma NewClientWithOptions_events:
  assumes "NewClientWithOptions cred opts w = (r, w')"
  shows "\<exists>evs. events w' = events w @ evs \<and> (\<forall>e\<in>set evs. isRequest e \<or> isSolverEvent e)"
proof (cases "cookiejarErr w")
  case True
  with assms show ?thesis by (auto simp add: NewClientWithOptions_def)
next
  case False
  obtain e1 c1 w1 where o:
    "applyOptions opts (newClientValue cred) (w\<lparr>jarLoggedIn := False\<rparr>) = (e1, c1, w1)"
    by (cases "applyOptions opts (newClientValue cred) (w\<lparr>jarLoggedIn := False\<rparr>)")
  from applyOptions_events [OF o] have e: "events w1 = events w" by simp
  show ?thesis
  proof (cases "e1 = None \<and> cred \<noteq> emptyCredentials")
    case False
    with assms \<open>\<not> cookiejarErr w\<close> o e show ?thesis
      by (auto simp add: NewClientWithOptions_def split: option.splits if_splits)
  next
    case True
    obtain e2 c2 w2 where l: "login False c1 w1 = (e2, c2, w2)"
      by (cases "login False c1 w1")
    with assms \<open>\<not> cookiejarErr w\<close> o True have "w' = w2"
      by (auto simp add: NewClientWithOptions_def)
    with login_events [OF l] e show ?thesis by simp
  qed
qed

lemma GetOrCreate_create_events:
  assumes "GetOrCreate_create username password sc w = (r, sc', w')"
  shows "\<exists>evs. events w' = events w @ evs @ [EvUnlock]
           \<and> (\<forall>e\<in>set evs. isRequest e \<or> isSolverEvent e)"
proof -
  let ?opts = "[WithTLSClient]
                 @ (if envCapsolverKey w \<noteq> [] then [WithCapSolver (envCapsolverKey w)] else [])"
  obtain n w1 where c:
    "NewClientWithOptions \<lparr>Username = username, Password = password\<rparr> ?opts w = (n, w1)"
    by (cases "NewClientWithOptions \<lparr>Username = username, Password = password\<rparr> ?opts w")
  from NewClientWithOptions_events [OF c] obtain evs where
    e: "events w1 = events w @ evs" "\<forall>e\<in>set evs. isRequest e \<or> isSolverEvent e"
    by blast
  have "events w' = events w1 @ [EvUnlock]"
    using assms c
    by (auto simp add: GetOrCreate_create_def Let_def logEvents_def time_Now_def
          split: constructed.splits option.splits)
  with e show ?thesis by simp
qed

lemma GetOrCreate_locked_events:
  assumes "GetOrCreate_locked username password sc w = (r, sc', w')"
  shows "\<exists>evs. events w' = events w @ [EvLock] @ evs @ [EvUnlock]
           \<and> (\<forall>e\<in>set evs. isRequest e \<or> isSolverEvent e)"
proof (cases "sessions sc (makeKey username password)")
  case None
  with assms have
    "GetOrCreate_create username password sc (logEvents [EvLock] w) = (r, sc', w')"
    by (simp add: GetOrCreate_locked_def Let_def)
  from GetOrCreate_create_events [OF this] show ?thesis
    by (simp add: logEvents_def)
next
  case (Some s)
  let ?w2 = "(logEvents [EvLock] w)\<lparr>clockReads := Suc (clockReads w)\<rparr>"
  show ?thesis
  proof (cases "time_Sub (clock w (clockReads w)) (createdAt s) \<le> ttl sc")
    case True
    with assms Some have "events w' = events w @ [EvLock] @ [] @ [EvUnlock]"
      by (auto simp add: GetOrCreate_locked_def Let_def logEvents_def time_Now_def)
    then show ?thesis by (intro exI [of _ "[]"]) simp
  next
    case False
    with assms Some have "GetOrCreate_create username password sc ?w2 = (r, sc', w')"
      by (simp add: GetOrCreate_locked_def Let_def logEvents_def time_Now_def)
    from GetOrCreate_create_events [OF this] show ?thesis
      by (simp add: logEvents_def)
  qed
qed

lemma GetOrCreate_events:
  assumes "GetOrCreate username password sc w = (r, sc', w')"
  shows "\<exists>evs. issued w w' = [EvRLock, EvRUnlock, EvLock] @ evs @ [EvUnlock]
           \<and> (\<forall>e\<in>set evs. isRequest e \<or> isSolverEvent e)
           \<and> ((\<exists>s. sessions sc (makeKey username password) = Some s
                  \<and> time_Sub (clock w (clockReads w)) (createdAt s) \<le> ttl sc) \<longrightarrow> evs = [])"
proof (cases "sessions sc (makeKey username password)")
  case None
  with assms have
    "GetOrCreate_locked username password sc (logEvents [EvRLock, EvRUnlock] w) = (r, sc', w')"
    by (simp add: GetOrCreate_def Let_def)
  from GetOrCreate_locked_events [OF this] None show ?thesis
    by (auto simp add: logEvents_def issued_def)
next
  case (Some s)
  show ?thesis
  proof (cases "time_Sub (clock w (clockReads w)) (createdAt s) \<le> ttl sc")
    case True
    with assms Some have "events w' = events w @ [EvRLock, EvRUnlock, EvLock] @ [] @ [EvUnlock]"
      by (auto simp add: GetOrCreate_def Let_def logEvents_def time_Now_def)
    then show ?thesis by (intro exI [of _ "[]"]) (simp add: issued_def)
  next
    case False
    with assms Some have
      "GetOrCreate_locked username password sc
         ((logEvents [EvRLock, EvRUnlock] w)\<lparr>clockReads := Suc (clockReads w)\<rparr>) = (r, sc', w')"
      by (simp add: GetOrCreate_def Let_def logEvents_def time_Now_def)
    from GetOrCreate_locked_events [OF this] Some False show ?thesis
      by (auto simp add: logEvents_def issued_def)
  qed
qed

lemma GetOrCreate_example:
  "events (snd (snd (GetOrCreate ''u'' ''p'' emptyCache (exWorld tokenOnlyPage)))) =
     [EvRLock, EvRUnlock, EvLock,
      EvRequest ''GET'' ''/'' None,
      EvRequest ''POST'' ''/''
        (Some [(''__RequestVerificationToken'', ''tok''), (''_UserName'', ''u''),
               (''_Password'', ''p''), (''_QString'', []), (''honeypot'', [])]),
      EvUnlock]"
  by (simp add: GetOrCreate_def GetOrCreate_locked_def GetOrCreate_create_def emptyCache_def
        NewSessionCache_def logEvents_def NewClientWithOptions_def applyOption_def
        login_unfold exWorld_def tokenOnlyPage_def homePage_def Let_def
        time_Sub_def Hour_def Minute_def Second_def minDuration_def maxDuration_def
        verificationTokenName_def loginRequestEndpoint_def MethodGet_def MethodPost_def)

text \<open>
  Claim C9, as the code has it. A call of \<open>GetOrCreate\<close> takes and releases the read lock
  for the lookup, then takes the exclusive lock and releases it when it returns; all
  that it sends to the portal or to the solving service, it sends in between, with the
  exclusive lock held; it sends nothing when the entry is there and within its TTL.
  \<open>Get\<close>, \<open>Set\<close>, \<open>Delete\<close> and the sweep do nothing but take and release the lock.
\<close>

theorem GetOrCreate_creates_under_lock:
  assumes "GetOrCreate username password sc w = (r, sc', w')"
  shows "(\<exists>evs. issued w w' = [EvRLock, EvRUnlock, EvLock] @ evs @ [EvUnlock]
            \<and> (\<forall>e\<in>set evs. isRequest e \<or> isSolverEvent e)
            \<and> ((\<exists>s. sessions sc (makeKey username password) = Some s
                   \<and> time_Sub (clock w (clockReads w)) (createdAt s) \<le> ttl sc) \<longrightarrow> evs = []))
       \<and> issued w (snd (snd (Get username password sc0 w))) =
           (if sessions sc0 (makeKey username password) = None then [EvRLock, EvRUnlock]
            else [EvRLock, EvRUnlock, EvLock, EvUnlock])
       \<and> issued w (snd (Set username password c sc0 w)) = [EvLock, EvUnlock]
       \<and> issued w (snd (Delete username password sc0 w)) = [EvLock, EvUnlock]
       \<and> issued w (snd (cleanup order sc0 w)) = [EvLock, EvUnlock]"
proof -
  have g: "issued w (snd (snd (Get username password sc0 w))) =
           (if sessions sc0 (makeKey username password) = None then [EvRLock, EvRUnlock]
            else [EvRLock, EvRUnlock, EvLock, EvUnlock])"
    by (auto simp add: Get_def Delete_def Let_def logEvents_def time_Now_def issued_def
          split: option.splits)
  have s: "issued w (snd (Set username password c sc0 w)) = [EvLock, EvUnlock]"
    by (simp add: Set_def logEvents_def time_Now_def issued_def)
  have d: "issued w (snd (Delete username password sc0 w)) = [EvLock, EvUnlock]"
    by (simp add: Delete_def logEvents_def issued_def)
  have c: "issued w (snd (cleanup order sc0 w)) = [EvLock, EvUnlock]"
    by (simp add: cleanup_def logEvents_def time_Now_def issued_def Let_def)
  from GetOrCreate_events [OF assms] g s d c show ?thesis by blast
qed

text \<open>
  The theorem at a cache that holds a fresh entry for the credentials: the call takes and
  releases the two locks and sends nothing.
\<close>

theorem GetOrCreate_creates_under_lock_witness:
  "issued (exWorld tokenOnlyPage)
     (snd (snd (GetOrCreate ''u'' ''p'' exClientCache (exWorld tokenOnlyPage))))
     = [EvRLock, EvRUnlock, EvLock, EvUnlock]"
proof -
  let ?w = "exWorld tokenOnlyPage"
  obtain r sc' w' where g: "GetOrCreate ''u'' ''p'' exClientCache ?w = (r, sc', w')"
    by (cases "GetOrCreate ''u'' ''p'' exClientCache ?w")
  have f: "\<exists>s. sessions exClientCache (makeKey ''u'' ''p'') = Some s
                  \<and> time_Sub (clock ?w (clockReads ?w)) (createdAt s) \<le> ttl exClientCache"
    by (simp add: exClientCache_def makeKey_def exWorld_def time_Sub_def DefaultSessionTTL_def
          Minute_def Second_def minDuration_def maxDuration_def)
  from GetOrCreate_creates_under_lock [OF g, THEN conjunct1] f
  have "issued ?w w' = [EvRLock, EvRUnlock, EvLock, EvUnlock]"
    by auto
  with g show ?thesis by simp
qed

text \<open>
  Claim C9 as stated fails: on a miss, \<open>GetOrCreate\<close> builds the client and logs it in
  with the exclusive lock of the cache held, so the request for the login page and the
  submission of the form happen under the lock.
\<close>

theorem GetOrCreate_logs_in_under_lock:
  "issued (exWorld tokenOnlyPage)
     (snd (snd (GetOrCreate ''u'' ''p'' emptyCache (exWorld tokenOnlyPage)))) =
     [EvRLock, EvRUnlock, EvLock,
      EvRequest ''GET'' ''/'' None,
      EvRequest ''POST'' ''/''
        (Some [(''__RequestVerificationToken'', ''tok''), (''_UserName'', ''u''),
               (''_Password'', ''p''), (''_QString'', []), (''honeypot'', [])]),
      EvUnlock]
   \<and> ioUnderLock False
       (issued (exWorld tokenOnlyPage)
          (snd (snd (GetOrCreate ''u'' ''p'' emptyCache (exWorld tokenOnlyPage)))))"
proof -
  have "events (exWorld tokenOnlyPage) = []" by (simp add: exWorld_def)
  then show ?thesis by (simp add: issued_def GetOrCreate_example)
qed

end
